theory Spec2Isabelle
  imports Complex_Main "HOL-Library.Product_Lexorder" "HOL-Library.List_Lexorder"
    "HOL-Library.Multiset"
begin

section \<open>Strings\<close>

text \<open>
  A Python \<open>str\<close> is a sequence of Unicode code points, so it is modelled as a list of
  natural numbers. \<open>str\<close> embeds an ASCII literal.
\<close>

type_synonym pystr = "nat list"

definition str :: "string \<Rightarrow> pystr" where
  "str s = map of_char s"

section \<open>Language detection (services/nlp_processor.py)\<close>




section \<open>Data model\<close>

text \<open>
  A \<open>datetime\<close> value of the Python standard library. \<open>utcoffset\<close> is the offset
  from UTC in minutes of an aware value and \<open>None\<close> for a naive one; the date parser
  used by the scraper returns aware values for date strings that carry a zone and naive
  ones otherwise, and \<^verbatim>\<open>datetime.utcnow()\<close> is naive.
\<close>

record datetime =
  year :: nat
  month :: nat
  day :: nat
  hour :: nat
  minute :: nat
  second :: nat
  microsecond :: nat
  utcoffset :: "int option"

text \<open>An element of \<^verbatim>\<open>content_dates\<close>.\<close>

record content_date =
  date_string :: pystr
  parsed_date :: datetime
  position :: nat

text \<open>
  An element of \<^verbatim>\<open>keywords\<close>: a dictionary with optional keys \<^verbatim>\<open>keyword\<close> and
  \<^verbatim>\<open>score\<close>, or any other object, of which the code only takes \<^verbatim>\<open>str(kw)\<close>.
\<close>

datatype kw_item = KwDict "pystr option" "real option" | KwOther pystr

text \<open>
  The article dictionary, with the keys the timeline generator and the similarity
  analyzer read. A key read with \<^verbatim>\<open>.get(k, default)\<close> holds the default when it is
  absent; \<^verbatim>\<open>_id\<close>, \<^verbatim>\<open>published_date\<close>, \<^verbatim>\<open>scraped_at\<close> and
  \<^verbatim>\<open>timeline_date\<close> are \<open>None\<close> when absent (or, for the dates, falsy).
  \<^verbatim>\<open>entities\<close> is a dictionary from entity type to a list of entities: an association
  list with distinct keys.
\<close>

record article =
  aid :: "pystr option"
  url :: pystr
  source :: pystr
  title :: pystr
  content :: pystr
  published_date :: "datetime option"
  scraped_at :: "datetime option"
  language :: pystr
  tokens :: "pystr list"
  entities :: "(pystr \<times> pystr list) list"
  article_keywords :: "kw_item list"
  content_dates :: "content_date list"
  word_count :: nat
  timeline_date :: "datetime option"

datatype error = KeyError pystr | TypeError | ValueError

section \<open>Timeline generation (services/timeline_generator.py)\<close>

subsection \<open>Dates\<close>

text \<open>
  \<^verbatim>\<open>strftime('%Y-%m-%d')\<close> renders the year, month and day fields of the value (its
  local calendar day). The rendering is injective, so the model keeps the triple.
\<close>

type_synonym date_key = "nat \<times> nat \<times> nat"

definition date_key :: "datetime \<Rightarrow> date_key" where
  "date_key t = (year t, month t, day t)"

text \<open>The proleptic Gregorian ordinal of a day, as \<^verbatim>\<open>datetime.toordinal\<close> computes it.\<close>

definition is_leap :: "nat \<Rightarrow> bool" where
  "is_leap y \<longleftrightarrow> y mod 4 = 0 \<and> (y mod 100 \<noteq> 0 \<or> y mod 400 = 0)"

definition days_before_year :: "nat \<Rightarrow> nat" where
  "days_before_year y = (y - 1) * 365 + (y - 1) div 4 - (y - 1) div 100 + (y - 1) div 400"

definition days_in_month :: "nat \<Rightarrow> nat \<Rightarrow> nat" where
  "days_in_month y m =
     (if m = 2 then (if is_leap y then 29 else 28)
      else if m = 4 \<or> m = 6 \<or> m = 9 \<or> m = 11 then 30 else 31)"

definition days_before_month :: "nat \<Rightarrow> nat \<Rightarrow> nat" where
  "days_before_month y m = sum_list (map (days_in_month y) [1..<m])"

definition ymd2ord :: "nat \<Rightarrow> nat \<Rightarrow> nat \<Rightarrow> nat" where
  "ymd2ord y m d = days_before_year y + days_before_month y m + d"

text \<open>The instant of an aware value in microseconds, its offset subtracted.\<close>

definition utc_instant :: "datetime \<Rightarrow> int \<Rightarrow> int" where
  "utc_instant t off =
     (((int (ymd2ord (year t) (month t) (day t)) * 24 + int (hour t)) * 60
        + int (minute t) - off) * 60 + int (second t)) * 1000000 + int (microsecond t)"

text \<open>
  The order of \<open>datetime\<close> values. Two naive values compare by their fields, in
  order; two aware values compare by their instants (for equal offsets that is the order
  of the fields); comparing a naive with an aware value raises \<^verbatim>\<open>TypeError\<close>. A list
  that passes the check below holds values of one kind, whose order is that of \<open>cmp_key\<close>.
\<close>

type_synonym cmp_key = "int \<times> nat \<times> nat \<times> nat \<times> nat \<times> nat \<times> nat \<times> nat"

definition cmp_key :: "datetime \<Rightarrow> cmp_key" where
  "cmp_key t =
     (case utcoffset t of
        None \<Rightarrow> (0, year t, month t, day t, hour t, minute t, second t, microsecond t)
      | Some off \<Rightarrow> (utc_instant t off, 0, 0, 0, 0, 0, 0, 0))"

definition mixed_awareness :: "datetime list \<Rightarrow> bool" where
  "mixed_awareness ts \<longleftrightarrow>
     (\<exists>t \<in> set ts. utcoffset t = None) \<and> (\<exists>t \<in> set ts. utcoffset t \<noteq> None)"

subsection \<open>Filtering and sorting\<close>

text \<open>The \<^verbatim>\<open>if\<close>/\<^verbatim>\<open>elif\<close> chain that picks the date of an article.\<close>

definition article_date :: "article \<Rightarrow> datetime option" where
  "article_date a =
     (case published_date a of
        Some d \<Rightarrow> Some d
      | None \<Rightarrow>
          (case content_dates a of
             c # _ \<Rightarrow> Some (parsed_date c)
           | [] \<Rightarrow> scraped_at a))"

text \<open>
  The loop of \<^verbatim>\<open>_filter_and_sort_articles\<close>. It assigns
  \<^verbatim>\<open>article['timeline_date']\<close> on the dictionary it was given, so the function returns
  the articles of the input list as the loop leaves them, together with
  \<^verbatim>\<open>dated_articles\<close>.
\<close>

fun filter_loop :: "article list \<Rightarrow> article list \<times> article list" where
  "filter_loop [] = ([], [])"
| "filter_loop (a # as) =
     (let (ms, ds) = filter_loop as
      in case article_date a of
           None \<Rightarrow> (a # ms, ds)
         | Some d \<Rightarrow> (a\<lparr>timeline_date := Some d\<rparr> # ms, a\<lparr>timeline_date := Some d\<rparr> # ds))"

definition timeline_key :: "article \<Rightarrow> cmp_key" where
  "timeline_key a = (case timeline_date a of Some d \<Rightarrow> cmp_key d | None \<Rightarrow> (0, 0, 0, 0, 0, 0, 0, 0))"

text \<open>
  \<^verbatim>\<open>sorted(dated_articles, key=lambda x: x['timeline_date'])\<close>: the keys are read
  first, then the list is sorted stably. A sort has to compare a naive with an aware key
  whenever both occur, and that comparison raises.
\<close>

definition sort_by_timeline_date :: "article list \<Rightarrow> error + article list" where
  "sort_by_timeline_date xs =
     (if \<exists>a \<in> set xs. timeline_date a = None then Inl (KeyError (str ''timeline_date''))
      else if mixed_awareness (concat (map (\<lambda>a. case timeline_date a of Some d \<Rightarrow> [d] | None \<Rightarrow> []) xs))
      then Inl TypeError
      else Inr (sort_key timeline_key xs))"

definition filter_and_sort_articles :: "article list \<Rightarrow> article list \<times> (error + article list)" where
  "filter_and_sort_articles articles =
     (let (mutated, dated_articles) = filter_loop articles
      in (mutated, sort_by_timeline_date dated_articles))"

subsection \<open>Grouping\<close>

text \<open>
  \<^verbatim>\<open>date_groups[date_key].append(article)\<close> on a dictionary, which keeps its keys in
  the order of their first insertion.
\<close>

fun group_add :: "date_key \<Rightarrow> article \<Rightarrow> (date_key \<times> article list) list \<Rightarrow> (date_key \<times> article list) list" where
  "group_add k a [] = [(k, [a])]"
| "group_add k a ((k', as) # gs) =
     (if k = k' then (k', as @ [a]) # gs else (k', as) # group_add k a gs)"

fun group_loop :: "article list \<Rightarrow> (date_key \<times> article list) list \<Rightarrow> error + (date_key \<times> article list) list" where
  "group_loop [] gs = Inr gs"
| "group_loop (a # as) gs =
     (case timeline_date a of
        None \<Rightarrow> Inl (KeyError (str ''timeline_date''))
      | Some d \<Rightarrow> group_loop as (group_add (date_key d) a gs))"

definition group_articles_by_date :: "article list \<Rightarrow> error + (date_key \<times> article list) list" where
  "group_articles_by_date articles = group_loop articles []"

subsection \<open>Events\<close>

definition event_weight_entities :: real where "event_weight_entities = 0.3"
definition event_weight_keywords :: real where "event_weight_keywords = 0.2"
definition event_weight_length :: real where "event_weight_length = 0.2"
definition event_weight_credibility :: real where "event_weight_credibility = 0.3"

definition source_credibility :: "(pystr \<times> real) list" where
  "source_credibility =
     [(str ''Bangkok Post'', 0.9),
      (str ''The Nation Thailand'', 0.9),
      (str ''Thai PBS'', 0.95),
      (str ''Thairath'', 0.8),
      (str ''Khaosod'', 0.8),
      (str ''Matichon'', 0.85),
      (str ''Manager'', 0.7),
      (str ''Sanook'', 0.6),
      (str ''Kapook'', 0.6),
      (str ''Daily News'', 0.7)]"

text \<open>\<^verbatim>\<open>self.source_credibility.get(source, 0.5)\<close>\<close>

definition credibility :: "pystr \<Rightarrow> real" where
  "credibility s = (case map_of source_credibility s of Some c \<Rightarrow> c | None \<Rightarrow> 0.5)"

text \<open>The body of the loop of \<^verbatim>\<open>_calculate_event_intensity\<close>: the score of one article.\<close>

definition article_score :: "article \<Rightarrow> real" where
  "article_score a =
     (let score = 0;
          entity_count = sum_list (map (\<lambda>(ty, es). length es) (entities a));
          score = score + real entity_count * event_weight_entities;
          keyword_count = length (article_keywords a);
          score = score + real keyword_count * event_weight_keywords;
          content_length = word_count a;
          normalized_length = min (real content_length / 1000) 1;
          score = score + normalized_length * event_weight_length;
          score = score + credibility (source a) * event_weight_credibility
      in score)"

fun intensity_loop :: "article list \<Rightarrow> real \<Rightarrow> real" where
  "intensity_loop [] total_score = total_score"
| "intensity_loop (a # as) total_score = intensity_loop as (total_score + article_score a)"

definition calculate_event_intensity :: "article list \<Rightarrow> real" where
  "calculate_event_intensity articles =
     (if articles = [] then 0
      else let average_score = intensity_loop articles 0 / real (length articles)
           in min (average_score * 2) 10)"

text \<open>\<^verbatim>\<open>entity_counts[entity] += 1\<close> and \<^verbatim>\<open>keyword_scores[keyword] += score\<close>.\<close>

fun count_add :: "pystr \<Rightarrow> (pystr \<times> nat) list \<Rightarrow> (pystr \<times> nat) list" where
  "count_add e [] = [(e, 1)]"
| "count_add e ((e', n) # cs) = (if e = e' then (e', n + 1) # cs else (e', n) # count_add e cs)"

fun score_add :: "pystr \<Rightarrow> real \<Rightarrow> (pystr \<times> real) list \<Rightarrow> (pystr \<times> real) list" where
  "score_add k s [] = [(k, s)]"
| "score_add k s ((k', t) # cs) = (if k = k' then (k', t + s) # cs else (k', t) # score_add k s cs)"

text \<open>
  \<^verbatim>\<open>sorted(..., reverse=True)\<close> keeps elements of equal key in their original order, as
  the stable \<open>sort_key\<close> on the negated key does.
\<close>

definition merge_entities :: "article list \<Rightarrow> pystr list" where
  "merge_entities articles =
     (let entity_counts =
            foldl (\<lambda>cs e. count_add e cs) []
              (concat (map (\<lambda>a. concat (map snd (entities a))) articles));
          sorted_entities = sort_key (\<lambda>(e, n). - int n) entity_counts
      in map fst (take 15 sorted_entities))"

definition kw_keyword :: "kw_item \<Rightarrow> pystr" where
  "kw_keyword kw = (case kw of KwDict k s \<Rightarrow> (case k of Some w \<Rightarrow> w | None \<Rightarrow> []) | KwOther w \<Rightarrow> w)"

definition kw_score :: "kw_item \<Rightarrow> real" where
  "kw_score kw = (case kw of KwDict k s \<Rightarrow> (case s of Some x \<Rightarrow> x | None \<Rightarrow> 0) | KwOther w \<Rightarrow> 1)"

definition merge_keywords :: "article list \<Rightarrow> (pystr \<times> real) list" where
  "merge_keywords articles =
     (let keyword_scores =
            foldl (\<lambda>cs kw. score_add (kw_keyword kw) (kw_score kw) cs) []
              (concat (map article_keywords articles))
      in sort_key (\<lambda>(k, s). - s) keyword_scores)"

text \<open>The decimal rendering of a number in an f-string, and \<^verbatim>\<open>sep.join(parts)\<close>.\<close>

fun py_str_nat :: "nat \<Rightarrow> pystr" where
  "py_str_nat n = (if n < 10 then [48 + n] else py_str_nat (n div 10) @ [48 + n mod 10])"

fun py_join :: "pystr \<Rightarrow> pystr list \<Rightarrow> pystr" where
  "py_join sep [] = []"
| "py_join sep [x] = x"
| "py_join sep (x # y # ys) = x @ sep @ py_join sep (y # ys)"

definition generate_event_title :: "article list \<Rightarrow> pystr list \<Rightarrow> pystr" where
  "generate_event_title articles ents =
     (case articles of
        [a] \<Rightarrow> title a
      | _ \<Rightarrow>
         (case ents of
            main_entity # _ \<Rightarrow>
              str ''News about '' @ main_entity @ str '' ('' @ py_str_nat (length articles) @ str '' articles)''
          | [] \<Rightarrow> str ''Multiple news events ('' @ py_str_nat (length articles) @ str '' articles)''))"

text \<open>
  \<^verbatim>\<open>list(set(...))\<close> lists the distinct sources in an order Python does not fix; the
  model lists them in the order of their first occurrence.
\<close>

definition generate_event_description :: "article list \<Rightarrow> (pystr \<times> real) list \<Rightarrow> pystr" where
  "generate_event_description articles kws =
     (let sources = remdups (map source articles);
          part1 = (if length articles > 1
                   then [py_str_nat (length articles) @ str '' articles from ''
                           @ py_str_nat (length sources) @ str '' source(s)'']
                   else []);
          part2 = (if kws \<noteq> []
                   then [str ''Key topics: '' @ py_join (str '', '') (map fst (take 5 kws))]
                   else []);
          part3 = (if sources \<noteq> []
                   then [str ''Sources: '' @ py_join (str '', '') sources]
                   else [])
      in py_join (str ''. '') (part1 @ part2 @ part3))"

record article_ref =
  ref_id :: pystr
  ref_title :: pystr
  ref_source :: pystr
  ref_url :: pystr

record timeline_event =
  ev_id :: nat
  ev_date :: date_key
  ev_title :: pystr
  ev_description :: pystr
  ev_intensity :: real
  ev_entities :: "pystr list"
  ev_keywords :: "(pystr \<times> real) list"
  ev_sources :: "pystr list"
  ev_article_count :: nat
  ev_articles :: "article_ref list"

definition make_article_ref :: "nat \<times> article \<Rightarrow> article_ref" where
  "make_article_ref ia =
     (case ia of (i, a) \<Rightarrow>
        \<lparr>ref_id = (case aid a of Some x \<Rightarrow> x | None \<Rightarrow> str ''article_'' @ py_str_nat i),
         ref_title = title a, ref_source = source a, ref_url = url a\<rparr>)"

text \<open>The body of the loop of \<^verbatim>\<open>_extract_timeline_events\<close>.\<close>

definition make_event :: "nat \<Rightarrow> date_key \<Rightarrow> article list \<Rightarrow> timeline_event" where
  "make_event event_id date_str articles =
     (let event_intensity = calculate_event_intensity articles;
          all_entities = merge_entities articles;
          all_keywords = merge_keywords articles;
          event_title = generate_event_title articles all_entities;
          event_description = generate_event_description articles all_keywords;
          sources = remdups (map source articles)
      in \<lparr>ev_id = event_id, ev_date = date_str, ev_title = event_title,
          ev_description = event_description, ev_intensity = event_intensity,
          ev_entities = all_entities, ev_keywords = take 10 all_keywords,
          ev_sources = sources, ev_article_count = length articles,
          ev_articles = map make_article_ref (enumerate 0 articles)\<rparr>)"

fun extract_loop :: "(date_key \<times> article list) list \<Rightarrow> nat \<Rightarrow> timeline_event list" where
  "extract_loop [] event_id = []"
| "extract_loop ((date_str, articles) # gs) event_id =
     make_event event_id date_str articles # extract_loop gs (event_id + 1)"

definition extract_timeline_events :: "(date_key \<times> article list) list \<Rightarrow> timeline_event list" where
  "extract_timeline_events date_groups = extract_loop date_groups 1"

text \<open>
  \<^verbatim>\<open>_generate_chart_data\<close> sorts the events by their date string before it reads the
  three series off; for years of four digits that is the order of the date triples.
\<close>

record chart_data =
  labels :: "date_key list"
  intensities :: "real list"
  article_counts :: "nat list"

definition generate_chart_data :: "timeline_event list \<Rightarrow> chart_data" where
  "generate_chart_data timeline_events =
     (if timeline_events = [] then \<lparr>labels = [], intensities = [], article_counts = []\<rparr>
      else let sorted_events = sort_key ev_date timeline_events
           in \<lparr>labels = map ev_date sorted_events,
               intensities = map ev_intensity sorted_events,
               article_counts = map ev_article_count sorted_events\<rparr>)"

text \<open>
  The result of \<^verbatim>\<open>generate_timeline\<close>, with the articles of the input list as the call
  leaves them. The statistics, the date range and the time of generation are computed
  from the same values, change none of them and cannot raise once the events exist; they
  are left out.
\<close>

record timeline =
  events :: "timeline_event list"
  chart :: chart_data
  total_articles :: nat

definition generate_timeline :: "article list \<Rightarrow> article list \<times> (error + timeline)" where
  "generate_timeline processed_articles =
     (let (mutated, dated) = filter_and_sort_articles processed_articles
      in (mutated,
          case dated of
            Inl e \<Rightarrow> Inl e
          | Inr dated_articles \<Rightarrow>
              (case group_articles_by_date dated_articles of
                 Inl e \<Rightarrow> Inl e
               | Inr date_groups \<Rightarrow>
                   (let timeline_events = extract_timeline_events date_groups
                    in Inr \<lparr>events = timeline_events,
                            chart = generate_chart_data timeline_events,
                            total_articles = length processed_articles\<rparr>))))"

subsection \<open>The intensity as the specification words it\<close>




subsection \<open>Example articles\<close>

text \<open>An article with no entities, no keywords, no words, no date and a source outside the credibility table.\<close>

definition bare_article :: article where
  "bare_article =
     \<lparr>aid = None, url = str ''http://example.org/a'', source = str ''example.org'',
      title = str ''A'', content = [], published_date = None, scraped_at = None,
      language = str ''th'', tokens = [], entities = [], article_keywords = [],
      content_dates = [], word_count = 0, timeline_date = None\<rparr>"

definition at_time :: "nat \<Rightarrow> nat \<Rightarrow> nat \<Rightarrow> nat \<Rightarrow> nat \<Rightarrow> int option \<Rightarrow> datetime" where
  "at_time y m d h mi off =
     \<lparr>year = y, month = m, day = d, hour = h, minute = mi, second = 0, microsecond = 0,
      utcoffset = off\<rparr>"

text \<open>
  Two articles whose published dates carry different zones: 2024-01-02 00:30 at +07:00
  (17:30 UTC of the first of January) and 2024-01-01 20:00 at +00:00.
\<close>

definition article_bangkok :: article where
  "article_bangkok = bare_article\<lparr>title := str ''B'', published_date := Some (at_time 2024 1 2 0 30 (Some 420))\<rparr>"

definition article_utc :: article where
  "article_utc = bare_article\<lparr>title := str ''U'', published_date := Some (at_time 2024 1 1 20 0 (Some 0))\<rparr>"

text \<open>An article with no published date, dated by the naive time of its scrape.\<close>

definition article_scraped :: article where
  "article_scraped = bare_article\<lparr>title := str ''S'', scraped_at := Some (at_time 2024 1 3 8 0 None)\<rparr>"

text \<open>Three articles with naive dates, two of them on the same day.\<close>

definition article_day1_morning :: article where
  "article_day1_morning = bare_article\<lparr>title := str ''M'', published_date := Some (at_time 2024 1 1 9 0 None)\<rparr>"

definition article_day1_evening :: article where
  "article_day1_evening = bare_article\<lparr>title := str ''E'', published_date := Some (at_time 2024 1 1 18 0 None)\<rparr>"

definition article_day2 :: article where
  "article_day2 = bare_article\<lparr>title := str ''N'', published_date := Some (at_time 2024 1 2 7 0 None)\<rparr>"

text \<open>The effect of one round of the filtering loop on the article it visits.\<close>

definition stamp :: "article \<Rightarrow> article" where
  "stamp a = (case article_date a of None \<Rightarrow> a | Some d \<Rightarrow> a\<lparr>timeline_date := Some d\<rparr>)"

text \<open>Two article records that agree on every key but \<^verbatim>\<open>timeline_date\<close>.\<close>

definition same_enrichment :: "article \<Rightarrow> article \<Rightarrow> bool" where
  "same_enrichment a' a \<longleftrightarrow>
     aid a' = aid a \<and> url a' = url a \<and> source a' = source a \<and> title a' = title a
     \<and> content a' = content a \<and> published_date a' = published_date a
     \<and> scraped_at a' = scraped_at a \<and> language a' = language a \<and> tokens a' = tokens a
     \<and> entities a' = entities a \<and> article_keywords a' = article_keywords a
     \<and> content_dates a' = content_dates a \<and> word_count a' = word_count a"

text \<open>The day under which a dated article is grouped, and the list of days in the order of their first occurrence.\<close>

definition article_day :: "article \<Rightarrow> date_key" where
  "article_day a = (case timeline_date a of Some d \<Rightarrow> date_key d | None \<Rightarrow> (0, 0, 0))"

definition add_key :: "date_key list \<Rightarrow> date_key \<Rightarrow> date_key list" where
  "add_key ks k = (if k \<in> set ks then ks else ks @ [k])"

text \<open>The dated articles of an input list, as the filtering loop collects them.\<close>

definition dated_of :: "article list \<Rightarrow> article list" where
  "dated_of as = map stamp (filter (\<lambda>a. article_date a \<noteq> None) as)"

text \<open>The dates the filtering loop resolves, in the order of the input.\<close>

definition resolved_dates :: "article list \<Rightarrow> datetime list" where
  "resolved_dates as = concat (map (\<lambda>a. case article_date a of Some d \<Rightarrow> [d] | None \<Rightarrow> []) as)"

section \<open>Similarity analysis (services/similarity_analyzer.py)\<close>

subsection \<open>Character classes and string methods\<close>

text \<open>
  \<^verbatim>\<open>\s\<close> and \<^verbatim>\<open>str.strip\<close>: the white space of Unicode. \<^verbatim>\<open>\w\<close>: the alphanumeric
  characters and the underscore. The table of alphanumeric characters is written out for
  ASCII and for the Thai block (consonants and vowel letters U+0E01 to U+0E30, U+0E32,
  U+0E33, U+0E40 to U+0E46, digits U+0E50 to U+0E59; the combining vowel and tone marks,
  U+0E31, U+0E34 to U+0E3A and U+0E47 to U+0E4E, are not alphanumeric); the model reads
  texts over these two blocks, and takes any other code point as a symbol. Only the
  letters A to Z have a lower-case form there.
\<close>

definition is_space :: "nat \<Rightarrow> bool" where
  "is_space c \<longleftrightarrow>
     (0x09 \<le> c \<and> c \<le> 0x0D) \<or> (0x1C \<le> c \<and> c \<le> 0x20) \<or> c = 0x85 \<or> c = 0xA0
     \<or> c = 0x1680 \<or> (0x2000 \<le> c \<and> c \<le> 0x200A) \<or> c = 0x2028 \<or> c = 0x2029
     \<or> c = 0x202F \<or> c = 0x205F \<or> c = 0x3000"

definition is_word :: "nat \<Rightarrow> bool" where
  "is_word c \<longleftrightarrow>
     (0x30 \<le> c \<and> c \<le> 0x39) \<or> (0x41 \<le> c \<and> c \<le> 0x5A) \<or> c = 0x5F
     \<or> (0x61 \<le> c \<and> c \<le> 0x7A)
     \<or> (0x0E01 \<le> c \<and> c \<le> 0x0E30) \<or> c = 0x0E32 \<or> c = 0x0E33
     \<or> (0x0E40 \<le> c \<and> c \<le> 0x0E46) \<or> (0x0E50 \<le> c \<and> c \<le> 0x0E59)"

definition py_lower :: "pystr \<Rightarrow> pystr" where
  "py_lower s = map (\<lambda>c. if 0x41 \<le> c \<and> c \<le> 0x5A then c + 32 else c) s"

definition py_strip :: "pystr \<Rightarrow> pystr" where
  "py_strip s = rev (dropWhile is_space (rev (dropWhile is_space s)))"

subsection \<open>Text preprocessing\<close>

text \<open>\<^verbatim>\<open>re.sub(r'\s+', ' ', text)\<close>: every maximal run of white space becomes one space.\<close>

function collapse_ws :: "pystr \<Rightarrow> pystr" where
  "collapse_ws [] = []"
| "collapse_ws (c # cs) =
     (if is_space c then 0x20 # collapse_ws (dropWhile is_space cs) else c # collapse_ws cs)"
  by pat_completeness auto
termination
  by (relation "measure length") (auto simp: length_dropWhile_le less_Suc_eq_le)

text \<open>\<^verbatim>\<open>re.sub(r'[^\w\s]', ' ', text)\<close>\<close>

definition blank_punctuation :: "pystr \<Rightarrow> pystr" where
  "blank_punctuation s = map (\<lambda>c. if \<not> is_word c \<and> \<not> is_space c then 0x20 else c) s"

definition preprocess_text :: "pystr \<Rightarrow> pystr \<Rightarrow> pystr" where
  "preprocess_text text language' =
     (if text = [] then []
      else py_strip (py_lower (blank_punctuation (collapse_ws text))))"

subsection \<open>Sentences and content differences\<close>

definition is_terminator :: "nat \<Rightarrow> bool" where
  "is_terminator c \<longleftrightarrow> c = 0x2E \<or> c = 0x21 \<or> c = 0x3F"

text \<open>\<^verbatim>\<open>re.split(r'[.!?]', content)\<close> cuts at every terminator.\<close>

fun split_each :: "pystr \<Rightarrow> pystr list" where
  "split_each [] = [[]]"
| "split_each (c # cs) =
     (if is_terminator c then [] # split_each cs
      else case split_each cs of [] \<Rightarrow> [[c]] | s # ss \<Rightarrow> (c # s) # ss)"

text \<open>\<^verbatim>\<open>re.split(r'[.!?]+', content)\<close> cuts at every maximal run of terminators.\<close>

function split_runs :: "pystr \<Rightarrow> pystr list" where
  "split_runs [] = [[]]"
| "split_runs (c # cs) =
     (if is_terminator c then [] # split_runs (dropWhile is_terminator cs)
      else case split_runs cs of [] \<Rightarrow> [[c]] | s # ss \<Rightarrow> (c # s) # ss)"
  by pat_completeness auto
termination
  by (relation "measure length") (auto simp: length_dropWhile_le less_Suc_eq_le)

definition split_sentences :: "pystr \<Rightarrow> pystr \<Rightarrow> pystr list" where
  "split_sentences content' language' =
     (let sentences = (if language' = str ''th'' then split_each content' else split_runs content')
      in map py_strip (filter (\<lambda>s. length (py_strip s) > 10) sentences))"

record difference =
  diff_type :: pystr
  diff_text :: pystr
  diff_article :: nat

text \<open>
  The sets of sentences are lists without repetition. Python does not fix the order in
  which a set is listed, so which five sentences \<^verbatim>\<open>list(only_in_1)[:5]\<close> keeps is not
  fixed either; the model lists a set in the order of the text.
\<close>

definition find_content_differences :: "pystr \<Rightarrow> pystr \<Rightarrow> pystr \<Rightarrow> difference list" where
  "find_content_differences content1 content2 language' =
     (let sentences1 = split_sentences content1 language';
          sentences2 = split_sentences content2 language';
          set1 = remdups sentences1;
          set2 = remdups sentences2;
          only_in_1 = filter (\<lambda>s. s \<notin> set set2) set1;
          removed = map (\<lambda>s. \<lparr>diff_type = str ''removed'', diff_text = py_strip s, diff_article = 1\<rparr>)
                      (filter (\<lambda>s. length (py_strip s) > 30) (take 5 only_in_1));
          only_in_2 = filter (\<lambda>s. s \<notin> set set1) set2;
          added = map (\<lambda>s. \<lparr>diff_type = str ''added'', diff_text = py_strip s, diff_article = 2\<rparr>)
                    (filter (\<lambda>s. length (py_strip s) > 30) (take 5 only_in_2))
      in removed @ added)"

subsection \<open>Entities and keywords\<close>

text \<open>\<^verbatim>\<open>d.get(k, [])\<close> on a dictionary of lists.\<close>

definition dict_get :: "(pystr \<times> pystr list) list \<Rightarrow> pystr \<Rightarrow> pystr list" where
  "dict_get d k = (case map_of d k of Some v \<Rightarrow> v | None \<Rightarrow> [])"

record entity_comparison =
  ent_common :: "pystr list"
  ent_different1 :: "pystr list"
  ent_different2 :: "pystr list"
  ent_similarity :: real
  ent_total_common :: nat
  ent_total_different_1 :: nat
  ent_total_different_2 :: nat

definition compare_entities :: "(pystr \<times> pystr list) list \<Rightarrow> (pystr \<times> pystr list) list \<Rightarrow> entity_comparison" where
  "compare_entities entities1 entities2 =
     (let all_entity_types = remdups (map fst entities1 @ map fst entities2);
          common_entities =
            concat (map (\<lambda>entity_type.
               let entities_1 = remdups (dict_get entities1 entity_type);
                   entities_2 = remdups (dict_get entities2 entity_type)
               in filter (\<lambda>e. e \<in> set entities_2) entities_1) all_entity_types);
          different1 =
            concat (map (\<lambda>entity_type.
               let entities_1 = remdups (dict_get entities1 entity_type);
                   entities_2 = remdups (dict_get entities2 entity_type)
               in filter (\<lambda>e. e \<notin> set entities_2) entities_1) all_entity_types);
          different2 =
            concat (map (\<lambda>entity_type.
               let entities_1 = remdups (dict_get entities1 entity_type);
                   entities_2 = remdups (dict_get entities2 entity_type)
               in filter (\<lambda>e. e \<notin> set entities_1) entities_2) all_entity_types);
          total_entities_1 = sum_list (map (\<lambda>(ty, es). length es) entities1);
          total_entities_2 = sum_list (map (\<lambda>(ty, es). length es) entities2);
          total_entities = total_entities_1 + total_entities_2;
          entity_similarity =
            (if total_entities > 0 then real (2 * length common_entities) / real total_entities
             else 0)
      in \<lparr>ent_common = common_entities, ent_different1 = different1,
          ent_different2 = different2, ent_similarity = entity_similarity,
          ent_total_common = length common_entities,
          ent_total_different_1 = length different1,
          ent_total_different_2 = length different2\<rparr>)"

record keyword_comparison =
  kw_common :: "pystr list"
  kw_different1 :: "pystr list"
  kw_different2 :: "pystr list"
  kw_similarity :: real
  kw_total_common :: nat
  kw_total_different_1 :: nat
  kw_total_different_2 :: nat

text \<open>The set of keyword strings of an article, the blank ones removed.\<close>

definition keyword_set :: "kw_item list \<Rightarrow> pystr list" where
  "keyword_set kws = filter (\<lambda>kw. py_strip kw \<noteq> []) (remdups (map kw_keyword kws))"

definition compare_keywords :: "kw_item list \<Rightarrow> kw_item list \<Rightarrow> keyword_comparison" where
  "compare_keywords keywords1 keywords2 =
     (let keywords_1 = keyword_set keywords1;
          keywords_2 = keyword_set keywords2;
          common_keywords = filter (\<lambda>k. k \<in> set keywords_2) keywords_1;
          different1 = filter (\<lambda>k. k \<notin> set keywords_2) keywords_1;
          different2 = filter (\<lambda>k. k \<notin> set keywords_1) keywords_2;
          total_keywords = length keywords_1 + length keywords_2;
          keyword_similarity =
            (if total_keywords > 0 then real (2 * length common_keywords) / real total_keywords
             else 0)
      in \<lparr>kw_common = common_keywords, kw_different1 = different1,
          kw_different2 = different2, kw_similarity = keyword_similarity,
          kw_total_common = length common_keywords,
          kw_total_different_1 = length different1,
          kw_total_different_2 = length different2\<rparr>)"

subsection \<open>Sentiment\<close>

text \<open>
  The three keyword tables, each a dictionary from the language to its list of keywords.
  The Thai keywords are given by their code points.
\<close>

definition positive_keywords :: "(pystr \<times> pystr list) list" where
  "positive_keywords =
     [(str ''th'',
        [[3604, 3637], [3626, 3635, 3648, 3619, 3655, 3592],
         [3611, 3619, 3632, 3626, 3610, 3612, 3621, 3626, 3635, 3648, 3619, 3655, 3592],
         [3585, 3657, 3634, 3623, 3627, 3609, 3657, 3634], [3614, 3633, 3602, 3609, 3634],
         [3648, 3592, 3619, 3636, 3597], [3618, 3636, 3609, 3604, 3637],
         [3594, 3639, 3656, 3609, 3594, 3617]]),
      (str ''en'',
        map str [''good'', ''great'', ''excellent'', ''successful'', ''positive'', ''progress'',
                 ''development'', ''achievement''])]"

definition negative_keywords :: "(pystr \<times> pystr list) list" where
  "negative_keywords =
     [(str ''th'',
        [[3649, 3618, 3656], [3621, 3657, 3617, 3648, 3627, 3621, 3623],
         [3648, 3626, 3637, 3618, 3627, 3634, 3618], [3623, 3636, 3585, 3620, 3605],
         [3611, 3633, 3597, 3627, 3634], [3629, 3633, 3609, 3605, 3619, 3634, 3618],
         [3648, 3626, 3637, 3618, 3651, 3592], [3650, 3585, 3619, 3608]]),
      (str ''en'',
        map str [''bad'', ''terrible'', ''failed'', ''crisis'', ''problem'', ''danger'', ''sad'',
                 ''angry'', ''negative''])]"

definition neutral_keywords :: "(pystr \<times> pystr list) list" where
  "neutral_keywords =
     [(str ''th'',
        [[3611, 3585, 3605, 3636], [3608, 3619, 3619, 3617, 3604, 3634],
         [3648, 3593, 3618, 3654], [3588, 3591, 3607, 3637, 3656]]),
      (str ''en'',
        map str [''normal'', ''ordinary'', ''neutral'', ''stable'', ''unchanged''])]"

text \<open>
  \<^verbatim>\<open>len(re.findall(r'\b' + re.escape(kw) + r'\b', text))\<close> for a non-empty keyword: the
  matches found from left to right, each search starting where the last match ended. A
  match needs a word boundary on both sides: exactly one of the two characters next to the
  position is a word character, the outside of the text counting as none.
  \<open>prev_word\<close> tells whether the character before the current position is a word character.
\<close>

definition matches_here :: "pystr \<Rightarrow> bool \<Rightarrow> pystr \<Rightarrow> bool" where
  "matches_here kw prev_word s \<longleftrightarrow>
     kw \<noteq> [] \<and> take (length kw) s = kw
     \<and> prev_word \<noteq> is_word (hd kw)
     \<and> is_word (last kw) \<noteq> (case drop (length kw) s of [] \<Rightarrow> False | n # _ \<Rightarrow> is_word n)"

function count_word_matches :: "pystr \<Rightarrow> bool \<Rightarrow> pystr \<Rightarrow> nat" where
  "count_word_matches kw prev_word [] = 0"
| "count_word_matches kw prev_word (c # cs) =
     (if matches_here kw prev_word (c # cs)
      then 1 + count_word_matches kw (is_word (last kw)) (drop (length kw) (c # cs))
      else count_word_matches kw (is_word c) cs)"
  by pat_completeness auto
termination
  by (relation "measure (\<lambda>(kw, p, s). length s)") (auto simp: matches_here_def)

record sentiment =
  positive :: real
  neutral :: real
  negative :: real

definition count_keywords :: "pystr list \<Rightarrow> pystr \<Rightarrow> nat" where
  "count_keywords kws content_lower =
     sum_list (map (\<lambda>keyword. count_word_matches (py_lower keyword) False content_lower) kws)"

definition analyze_sentiment :: "pystr \<Rightarrow> pystr \<Rightarrow> error + sentiment" where
  "analyze_sentiment content' language' =
     (if content' = [] then Inr \<lparr>positive = 0, neutral = 1, negative = 0\<rparr>
      else
        let content_lower = py_lower content'
        in case map_of positive_keywords language' of
             None \<Rightarrow> Inl (KeyError language')
           | Some pos \<Rightarrow>
          (case map_of negative_keywords language' of
             None \<Rightarrow> Inl (KeyError language')
           | Some neg \<Rightarrow>
          (case map_of neutral_keywords language' of
             None \<Rightarrow> Inl (KeyError language')
           | Some neu \<Rightarrow>
             (let positive_count = count_keywords pos content_lower;
                  negative_count = count_keywords neg content_lower;
                  neutral_count = count_keywords neu content_lower;
                  total_sentiment_words = positive_count + negative_count + neutral_count
              in if total_sentiment_words = 0
                 then Inr \<lparr>positive = 0.3, neutral = 0.4, negative = 0.3\<rparr>
                 else Inr \<lparr>positive = real positive_count / real total_sentiment_words,
                           neutral = real neutral_count / real total_sentiment_words,
                           negative = real negative_count / real total_sentiment_words\<rparr>))))"

record sentiment_comparison =
  sent_article1 :: sentiment
  sent_article2 :: sentiment
  sentiment_difference :: sentiment

definition analyze_sentiment_comparison :: "pystr \<Rightarrow> pystr \<Rightarrow> pystr \<Rightarrow> error + sentiment_comparison" where
  "analyze_sentiment_comparison content1 content2 language' =
     (case analyze_sentiment content1 language' of
        Inl e \<Rightarrow> Inl e
      | Inr sentiment1 \<Rightarrow>
          (case analyze_sentiment content2 language' of
             Inl e \<Rightarrow> Inl e
           | Inr sentiment2 \<Rightarrow>
               Inr \<lparr>sent_article1 = sentiment1, sent_article2 = sentiment2,
                    sentiment_difference =
                      \<lparr>positive = \<bar>positive sentiment1 - positive sentiment2\<bar>,
                       neutral = \<bar>neutral sentiment1 - neutral sentiment2\<bar>,
                       negative = \<bar>negative sentiment1 - negative sentiment2\<bar>\<rparr>\<rparr>))"

subsection \<open>Overall similarity\<close>

definition calculate_overall_similarity :: "real \<Rightarrow> real \<Rightarrow> real \<Rightarrow> real" where
  "calculate_overall_similarity content_sim entity_sim keyword_sim =
     (let overall = content_sim * 0.5 + entity_sim * 0.3 + keyword_sim * 0.2
      in min (max overall 0) 1)"

subsection \<open>The vectoriser and the cosine\<close>

text \<open>
  Modelled from the spec: the content similarity is the "cosine similarity between TF-IDF
  vectors (unigrams+bigrams, max 1,000 features) built over the two articles' cleaned
  content treated as a two-document corpus", which the code obtains from the calls
  \<^verbatim>\<open>TfidfVectorizer(max_features=1000, ngram_range=(1, 2), stop_words=...)\<close>,
  \<^verbatim>\<open>fit_transform\<close> and \<^verbatim>\<open>cosine_similarity\<close> of an external library. The model
  follows the documented behaviour of these calls over the real numbers: lower-casing,
  tokens of two or more word characters, removal of the stop words, unigrams followed by
  bigrams, the smoothed inverse document frequency \<open>ln ((1 + n) / (1 + df)) + 1\<close>, rows
  scaled to Euclidean length one, and the failure on an empty vocabulary.
\<close>

text \<open>The maximal runs of word characters; the token pattern keeps those of length two or more.\<close>

function word_runs :: "pystr \<Rightarrow> pystr list" where
  "word_runs [] = []"
| "word_runs (c # cs) =
     (if is_word c then (c # takeWhile is_word cs) # word_runs (dropWhile is_word cs)
      else word_runs cs)"
  by pat_completeness auto
termination
  by (relation "measure length") (auto simp: length_dropWhile_le less_Suc_eq_le)

definition sk_tokenize :: "pystr \<Rightarrow> pystr list" where
  "sk_tokenize doc = filter (\<lambda>w. length w \<ge> 2) (word_runs (py_lower doc))"

definition word_ngrams :: "pystr list \<Rightarrow> pystr list" where
  "word_ngrams toks = toks @ map (\<lambda>(a, b). a @ [0x20] @ b) (zip toks (tl toks))"

text \<open>The stop words of the option \<^verbatim>\<open>stop_words='english'\<close>, a fixed list of the library.\<close>

definition english_stop_words :: "pystr list" where
  "english_stop_words = map str
     [''a'', ''about'', ''above'', ''across'', ''after'', ''afterwards'', ''again'', ''against'',
      ''all'', ''almost'', ''alone'', ''along'', ''already'', ''also'', ''although'', ''always'',
      ''am'', ''among'', ''amongst'', ''amoungst'', ''amount'', ''an'', ''and'', ''another'',
      ''any'', ''anyhow'', ''anyone'', ''anything'', ''anyway'', ''anywhere'', ''are'', ''around'',
      ''as'', ''at'', ''back'', ''be'', ''became'', ''because'', ''become'', ''becomes'',
      ''becoming'', ''been'', ''before'', ''beforehand'', ''behind'', ''being'', ''below'',
      ''beside'', ''besides'', ''between'', ''beyond'', ''bill'', ''both'', ''bottom'', ''but'',
      ''by'', ''call'', ''can'', ''cannot'', ''cant'', ''co'', ''con'', ''could'', ''couldnt'',
      ''cry'', ''de'', ''describe'', ''detail'', ''do'', ''done'', ''down'', ''due'', ''during'',
      ''each'', ''eg'', ''eight'', ''either'', ''eleven'', ''else'', ''elsewhere'', ''empty'',
      ''enough'', ''etc'', ''even'', ''ever'', ''every'', ''everyone'', ''everything'',
      ''everywhere'', ''except'', ''few'', ''fifteen'', ''fifty'', ''fill'', ''find'', ''fire'',
      ''first'', ''five'', ''for'', ''former'', ''formerly'', ''forty'', ''found'', ''four'',
      ''from'', ''front'', ''full'', ''further'', ''get'', ''give'', ''go'', ''had'', ''has'',
      ''hasnt'', ''have'', ''he'', ''hence'', ''her'', ''here'', ''hereafter'', ''hereby'',
      ''herein'', ''hereupon'', ''hers'', ''herself'', ''him'', ''himself'', ''his'', ''how'',
      ''however'', ''hundred'', ''i'', ''ie'', ''if'', ''in'', ''inc'', ''indeed'', ''interest'',
      ''into'', ''is'', ''it'', ''its'', ''itself'', ''keep'', ''last'', ''latter'', ''latterly'',
      ''least'', ''less'', ''ltd'', ''made'', ''many'', ''may'', ''me'', ''meanwhile'', ''might'',
      ''mill'', ''mine'', ''more'', ''moreover'', ''most'', ''mostly'', ''move'', ''much'',
      ''must'', ''my'', ''myself'', ''name'', ''namely'', ''neither'', ''never'',
      ''nevertheless'', ''next'', ''nine'', ''no'', ''nobody'', ''none'', ''noone'', ''nor'',
      ''not'', ''nothing'', ''now'', ''nowhere'', ''of'', ''off'', ''often'', ''on'', ''once'',
      ''one'', ''only'', ''onto'', ''or'', ''other'', ''others'', ''otherwise'', ''our'', ''ours'',
      ''ourselves'', ''out'', ''over'', ''own'', ''part'', ''per'', ''perhaps'', ''please'',
      ''put'', ''rather'', ''re'', ''same'', ''see'', ''seem'', ''seemed'', ''seeming'', ''seems'',
      ''serious'', ''several'', ''she'', ''should'', ''show'', ''side'', ''since'', ''sincere'',
      ''six'', ''sixty'', ''so'', ''some'', ''somehow'', ''someone'', ''something'', ''sometime'',
      ''sometimes'', ''somewhere'', ''still'', ''such'', ''system'', ''take'', ''ten'', ''than'',
      ''that'', ''the'', ''their'', ''them'', ''themselves'', ''then'', ''thence'', ''there'',
      ''thereafter'', ''thereby'', ''therefore'', ''therein'', ''thereupon'', ''these'', ''they'',
      ''thick'', ''thin'', ''third'', ''this'', ''those'', ''though'', ''three'', ''through'',
      ''throughout'', ''thru'', ''thus'', ''to'', ''together'', ''too'', ''top'', ''toward'',
      ''towards'', ''twelve'', ''twenty'', ''two'', ''un'', ''under'', ''until'', ''up'', ''upon'',
      ''us'', ''very'', ''via'', ''was'', ''we'', ''well'', ''were'', ''what'', ''whatever'',
      ''when'', ''whence'', ''whenever'', ''where'', ''whereafter'', ''whereas'', ''whereby'',
      ''wherein'', ''whereupon'', ''wherever'', ''whether'', ''which'', ''while'', ''whither'',
      ''who'', ''whoever'', ''whole'', ''whom'', ''whose'', ''why'', ''will'', ''with'', ''within'',
      ''without'', ''would'', ''yet'', ''you'', ''your'', ''yours'', ''yourself'', ''yourselves'']"

text \<open>The terms of a document: its tokens without the stop words, then the bigrams of these.\<close>

definition analyze :: "bool \<Rightarrow> pystr \<Rightarrow> pystr list" where
  "analyze english doc =
     (let toks = sk_tokenize doc;
          toks = (if english then filter (\<lambda>w. w \<notin> set english_stop_words) toks else toks)
      in word_ngrams toks)"

text \<open>
  The features: the distinct terms of the corpus in sorted order, cut to the
  \<open>limit\<close> most frequent ones when there are more. Which of several equally frequent
  terms survive the cut is the choice of the library's sort; the model keeps the earlier
  feature.
\<close>

definition limit_features :: "nat \<Rightarrow> (pystr \<Rightarrow> nat) \<Rightarrow> pystr list \<Rightarrow> pystr list" where
  "limit_features limit tfs vocab =
     (if length vocab > limit
      then (let kept = take limit (sort_key (\<lambda>t. - int (tfs t)) vocab)
            in filter (\<lambda>t. t \<in> set kept) vocab)
      else vocab)"

definition vocabulary :: "pystr list \<Rightarrow> pystr list \<Rightarrow> pystr list" where
  "vocabulary t1 t2 =
     limit_features 1000 (\<lambda>t. count_list t1 t + count_list t2 t) (sort (remdups (t1 @ t2)))"

definition doc_freq :: "pystr list list \<Rightarrow> pystr \<Rightarrow> nat" where
  "doc_freq docs t = length (filter (\<lambda>d. t \<in> set d) docs)"

definition idf :: "pystr list list \<Rightarrow> pystr \<Rightarrow> real" where
  "idf docs t = ln ((1 + real (length docs)) / (1 + real (doc_freq docs t))) + 1"

definition dot :: "real list \<Rightarrow> real list \<Rightarrow> real" where
  "dot u v = sum_list (map (\<lambda>(x, y). x * y) (zip u v))"

definition norm2 :: "real list \<Rightarrow> real" where
  "norm2 v = sqrt (sum_list (map (\<lambda>x. x * x) v))"

text \<open>Scaling a row to length one; a row of zeros stays as it is.\<close>

definition l2_normalize :: "real list \<Rightarrow> real list" where
  "l2_normalize v = (if norm2 v = 0 then v else map (\<lambda>x. x / norm2 v) v)"

definition tfidf_row :: "pystr list list \<Rightarrow> pystr list \<Rightarrow> pystr list \<Rightarrow> real list" where
  "tfidf_row docs vocab d =
     l2_normalize (map (\<lambda>t. real (count_list d t) * idf docs t) vocab)"

definition cosine_similarity :: "real list \<Rightarrow> real list \<Rightarrow> real" where
  "cosine_similarity u v = dot (l2_normalize u) (l2_normalize v)"

text \<open>The three calls together; \<open>None\<close> when the vocabulary is empty and the library raises.\<close>

definition tfidf_cosine :: "bool \<Rightarrow> pystr \<Rightarrow> pystr \<Rightarrow> real option" where
  "tfidf_cosine english doc1 doc2 =
     (let t1 = analyze english doc1;
          t2 = analyze english doc2
      in if t1 @ t2 = [] then None
         else Some (cosine_similarity (tfidf_row [t1, t2] (vocabulary t1 t2) t1)
                                      (tfidf_row [t1, t2] (vocabulary t1 t2) t2)))"

subsection \<open>Content similarity\<close>

definition calculate_content_similarity :: "pystr \<Rightarrow> pystr \<Rightarrow> pystr \<Rightarrow> real" where
  "calculate_content_similarity content1 content2 language' =
     (if content1 = [] \<or> content2 = [] then 0
      else
        let processed_content1 = preprocess_text content1 language';
            processed_content2 = preprocess_text content2 language'
        in if processed_content1 = [] \<or> processed_content2 = [] then 0
           else case tfidf_cosine (language' = str ''en'') processed_content1 processed_content2 of
                  Some similarity \<Rightarrow> similarity
                | None \<Rightarrow> 0)"

subsection \<open>Comparing two articles\<close>

text \<open>
  The result of \<^verbatim>\<open>compare_articles\<close>; of the metadata the time of comparison is left
  out. The sentiment analysis is the one step that can raise.
\<close>

record comparison =
  similarity_score :: real
  content_similarity :: real
  entity_comparison :: entity_comparison
  keyword_comparison :: keyword_comparison
  sentiment_analysis :: sentiment_comparison
  content_differences :: "difference list"
  article1_id :: "pystr option"
  article2_id :: "pystr option"
  article1_source :: pystr
  article2_source :: pystr

definition compare_articles :: "article \<Rightarrow> article \<Rightarrow> error + comparison" where
  "compare_articles article1 article2 =
     (let content_sim = calculate_content_similarity (content article1) (content article2) (language article1);
          entity_cmp = compare_entities (entities article1) (entities article2);
          keyword_cmp = compare_keywords (article_keywords article1) (article_keywords article2)
      in case analyze_sentiment_comparison (content article1) (content article2) (language article1) of
           Inl e \<Rightarrow> Inl e
         | Inr sentiment_cmp \<Rightarrow>
             (let differences = find_content_differences (content article1) (content article2) (language article1);
                  overall_similarity =
                    calculate_overall_similarity content_sim (ent_similarity entity_cmp) (kw_similarity keyword_cmp)
              in Inr \<lparr>similarity_score = overall_similarity,
                      content_similarity = content_sim,
                      entity_comparison = entity_cmp,
                      keyword_comparison = keyword_cmp,
                      sentiment_analysis = sentiment_cmp,
                      content_differences = differences,
                      article1_id = aid article1,
                      article2_id = aid article2,
                      article1_source = source article1,
                      article2_source = source article2\<rparr>))"

subsection \<open>Comparing many articles\<close>

record pair_comparison =
  article1_index :: nat
  article2_index :: nat
  pair_score :: real
  pair_result :: comparison

text \<open>\<^verbatim>\<open>similarity_matrix[i][j] = similarity_score\<close>\<close>

definition matrix_set :: "real list list \<Rightarrow> nat \<Rightarrow> nat \<Rightarrow> real \<Rightarrow> real list list" where
  "matrix_set m i j x = m[i := (m ! i)[j := x]]"

text \<open>The inner loop, over the indices \<open>j\<close> that follow \<open>i\<close>, and the outer loop.\<close>

fun inner_loop :: "article list \<Rightarrow> nat \<Rightarrow> nat list \<Rightarrow> real list list \<times> pair_comparison list
    \<Rightarrow> error + real list list \<times> pair_comparison list" where
  "inner_loop articles i [] st = Inr st"
| "inner_loop articles i (j # js) (m, comparisons) =
     (case compare_articles (articles ! i) (articles ! j) of
        Inl e \<Rightarrow> Inl e
      | Inr c \<Rightarrow>
          inner_loop articles i js
            (matrix_set (matrix_set m i j (similarity_score c)) j i (similarity_score c),
             comparisons @ [\<lparr>article1_index = i, article2_index = j,
                              pair_score = similarity_score c, pair_result = c\<rparr>]))"

fun outer_loop :: "article list \<Rightarrow> nat list \<Rightarrow> real list list \<times> pair_comparison list
    \<Rightarrow> error + real list list \<times> pair_comparison list" where
  "outer_loop articles [] st = Inr st"
| "outer_loop articles (i # is) st =
     (case inner_loop articles i [i + 1 ..< length articles] st of
        Inl e \<Rightarrow> Inl e
      | Inr st' \<Rightarrow> outer_loop articles is st')"

text \<open>\<^verbatim>\<open>np.argmax\<close> and \<^verbatim>\<open>np.argmin\<close>: the first index of a greatest, of a least element.\<close>

fun argmax_from :: "real list \<Rightarrow> nat \<Rightarrow> nat \<Rightarrow> real \<Rightarrow> nat" where
  "argmax_from [] i best_i best = best_i"
| "argmax_from (x # xs) i best_i best =
     (if x > best then argmax_from xs (i + 1) i x else argmax_from xs (i + 1) best_i best)"

fun argmin_from :: "real list \<Rightarrow> nat \<Rightarrow> nat \<Rightarrow> real \<Rightarrow> nat" where
  "argmin_from [] i best_i best = best_i"
| "argmin_from (x # xs) i best_i best =
     (if x < best then argmin_from xs (i + 1) i x else argmin_from xs (i + 1) best_i best)"

record multi_comparison =
  comparisons :: "pair_comparison list"
  similarity_matrix :: "real list list"
  most_similar_pair :: pair_comparison
  most_different_pair :: pair_comparison
  average_similarity :: real
  distribution_high :: nat
  distribution_medium :: nat
  distribution_low :: nat

text \<open>
  The result is the error dictionary for fewer than two articles. With two or more there
  is at least one pair, so the list of scores is not empty; on an empty list
  \<^verbatim>\<open>np.argmax\<close> would raise.
\<close>

datatype multi_result = ErrorResult pystr | Compared multi_comparison

definition compare_multiple_articles :: "article list \<Rightarrow> error + multi_result" where
  "compare_multiple_articles articles =
     (if length articles < 2 then Inr (ErrorResult (str ''Need at least 2 articles for comparison''))
      else
        case outer_loop articles [0 ..< length articles]
               (replicate (length articles) (replicate (length articles) 0), []) of
          Inl e \<Rightarrow> Inl e
        | Inr (m, cs) \<Rightarrow>
            (case cs of
               [] \<Rightarrow> Inl ValueError
             | c # cs' \<Rightarrow>
                 (let similarities = map pair_score (c # cs');
                      most_similar_idx = argmax_from (map pair_score cs') 1 0 (pair_score c);
                      most_different_idx = argmin_from (map pair_score cs') 1 0 (pair_score c)
                  in Inr (Compared
                       \<lparr>comparisons = c # cs',
                        similarity_matrix = m,
                        most_similar_pair = (c # cs') ! most_similar_idx,
                        most_different_pair = (c # cs') ! most_different_idx,
                        average_similarity = sum_list similarities / real (length similarities),
                        distribution_high = length (filter (\<lambda>s. s > 0.7) similarities),
                        distribution_medium = length (filter (\<lambda>s. 0.3 \<le> s \<and> s \<le> 0.7) similarities),
                        distribution_low = length (filter (\<lambda>s. s < 0.3) similarities)\<rparr>))))"


subsection \<open>The Dice coefficient as the specification words it\<close>

definition spec_dice :: "nat \<Rightarrow> nat \<Rightarrow> real" where
  "spec_dice c n = (if n = 0 then 0 else real (2 * c) / real n)"

text \<open>The entities of an article, counted per type, and the entities two articles share, per type.\<close>

definition spec_entity_total :: "(pystr \<times> pystr list) list \<Rightarrow> nat" where
  "spec_entity_total e = (\<Sum>t \<in> fst ` set e. card (set (dict_get e t)))"

definition spec_entity_common :: "(pystr \<times> pystr list) list \<Rightarrow> (pystr \<times> pystr list) list \<Rightarrow> nat" where
  "spec_entity_common e1 e2 =
     (\<Sum>t \<in> fst ` set e1 \<union> fst ` set e2. card (set (dict_get e1 t) \<inter> set (dict_get e2 t)))"

text \<open>A dictionary of entity lists without repeated entities: its keys are distinct, as those of any dictionary.\<close>

definition duplicate_free :: "(pystr \<times> pystr list) list \<Rightarrow> bool" where
  "duplicate_free e \<longleftrightarrow> distinct (map fst e) \<and> list_all (\<lambda>(t, es). distinct es) e"

text \<open>The keyword strings of an article; the code drops the blank ones before it forms the set.\<close>

definition keyword_strings :: "kw_item list \<Rightarrow> pystr set" where
  "keyword_strings kws = {w \<in> kw_keyword ` set kws. py_strip w \<noteq> []}"

text \<open>Entities and keywords for the examples.\<close>

definition example_entities :: "(pystr \<times> pystr list) list" where
  "example_entities = [(str ''PERSON'', [str ''Somchai'', str ''Malee'']), (str ''LOCATION'', [str ''Bangkok''])]"

definition example_keywords :: "kw_item list" where
  "example_keywords = [KwDict (Some (str ''flood'')) (Some 0.8), KwDict (Some (str ''rescue'')) (Some 0.6)]"

text \<open>A square matrix of size \<open>n\<close> that is symmetric and has zeros on its diagonal.\<close>

definition symmetric_zero_diagonal :: "nat \<Rightarrow> real list list \<Rightarrow> bool" where
  "symmetric_zero_diagonal n m \<longleftrightarrow>
     length m = n \<and> (\<forall>i < n. length (m ! i) = n)
     \<and> (\<forall>i < n. \<forall>j < n. m ! i ! j = m ! j ! i)
     \<and> (\<forall>i < n. m ! i ! i = 0)"



definition article_flood :: article where
  "article_flood = bare_article\<lparr>content := str ''Flood warning''\<rparr>"

definition article_full :: article where
  "article_full = bare_article\<lparr>content := str ''Flood warning'', entities := example_entities,
                                 article_keywords := example_keywords\<rparr>"

definition article_the_en :: article where
  "article_the_en = bare_article\<lparr>content := str ''the'', language := str ''en''\<rparr>"

definition article_the_th :: article where
  "article_the_th = bare_article\<lparr>content := str ''the'', language := str ''th''\<rparr>"

text \<open>An article with no published date whose content mentions a date.\<close>

definition article_content_dated :: article where
  "article_content_dated =
     bare_article\<lparr>title := str ''C'',
       content_dates := [\<lparr>date_string = str ''15/01/2024'', parsed_date = at_time 2024 1 15 0 0 None,
                           position = 4\<rparr>],
       scraped_at := Some (at_time 2024 1 20 8 0 None)\<rparr>"

section \<open>Properties\<close>


lemma str_th_en_mixed:
  "str ''th'' \<noteq> str ''en''" "str ''th'' \<noteq> str ''mixed''" "str ''en'' \<noteq> str ''mixed''"
  by (simp_all add: str_def)

subsection \<open>Language detection\<close>



subsection \<open>Event intensity\<close>








subsection \<open>Timeline generation\<close>

lemmas ex_defs = article_bangkok_def article_utc_def article_scraped_def article_day1_morning_def
  article_day1_evening_def article_day2_def bare_article_def at_time_def

lemma filter_loop_fst: "fst (filter_loop as) = map stamp as"
  by (induction as) (auto simp: stamp_def split: prod.splits option.splits)

lemma filter_loop_snd: "snd (filter_loop as) = dated_of as"
  by (induction as) (auto simp: dated_of_def stamp_def split: prod.splits option.splits)

lemma generate_timeline_fst: "fst (generate_timeline as) = map stamp as"
  by (simp add: generate_timeline_def filter_and_sort_articles_def filter_loop_fst [symmetric]
      split: prod.splits)

lemma stamp_same_enrichment: "same_enrichment (stamp a) a"
  by (simp add: stamp_def same_enrichment_def split: option.splits)

lemma stamp_timeline_date:
  "timeline_date (stamp a) = (case article_date a of Some d \<Rightarrow> Some d | None \<Rightarrow> timeline_date a)"
  by (simp add: stamp_def split: option.splits)

lemma map_fst_group_add: "map fst (group_add k a gs) = add_key (map fst gs) k"
proof (induction k a gs rule: group_add.induct)
  case (1 k a)
  then show ?case by (simp add: add_key_def)
next
  case (2 k a k' as gs)
  show ?case
  proof (cases "k = k'")
    case True
    then show ?thesis by (simp add: add_key_def)
  next
    case False
    with 2 show ?thesis by (auto simp: add_key_def)
  qed
qed

lemma group_loop_keys:
  "\<forall>a \<in> set xs. timeline_date a \<noteq> None \<Longrightarrow>
   \<exists>gs'. group_loop xs gs = Inr gs' \<and> map fst gs' = foldl add_key (map fst gs) (map article_day xs)"
proof (induction xs arbitrary: gs)
  case Nil
  then show ?case by simp
next
  case (Cons a xs)
  then obtain d where d: "timeline_date a = Some d" by auto
  from Cons.IH [of "group_add (date_key d) a gs"] Cons.prems d
  show ?case by (simp add: map_fst_group_add article_day_def)
qed

lemma group_add_concat: "mset (concat (map snd (group_add k a gs))) = mset (concat (map snd gs)) + {#a#}"
  by (induction gs) auto

lemma group_loop_members:
  "group_loop xs gs = Inr gs' \<Longrightarrow> mset (concat (map snd gs')) = mset (concat (map snd gs)) + mset xs"
proof (induction xs arbitrary: gs)
  case Nil
  then show ?case by simp
next
  case (Cons a xs)
  then show ?case
    by (auto simp: group_add_concat split: option.splits)
qed

lemma extract_loop_dates: "map ev_date (extract_loop gs n) = map fst gs"
  by (induction gs n rule: extract_loop.induct) (auto simp: make_event_def Let_def)

lemma extract_loop_counts: "map ev_article_count (extract_loop gs n) = map (length \<circ> snd) gs"
  by (induction gs n rule: extract_loop.induct) (auto simp: make_event_def Let_def)

lemma extract_loop_refs:
  "map ev_articles (extract_loop gs n) = map (\<lambda>g. map make_article_ref (enumerate 0 (snd g))) gs"
  by (induction gs n rule: extract_loop.induct) (auto simp: make_event_def Let_def)

lemma add_key_sorted:
  "sorted_wrt (<) acc \<Longrightarrow> sorted ks \<Longrightarrow> \<forall>x \<in> set acc. \<forall>k \<in> set ks. x \<le> k \<Longrightarrow>
   sorted_wrt (<) (foldl add_key acc ks)"
proof (induction ks arbitrary: acc)
  case Nil
  then show ?case by simp
next
  case (Cons k ks)
  have "x < k" if "x \<in> set acc" "k \<notin> set acc" for x
    using that Cons.prems(3) by (metis list.set_intros(1) order.strict_iff_order)
  then have "sorted_wrt (<) (add_key acc k)"
    using Cons.prems(1) by (auto simp: add_key_def sorted_wrt_append)
  moreover have "\<forall>x \<in> set (add_key acc k). \<forall>k' \<in> set ks. x \<le> k'"
    using Cons.prems by (auto simp: add_key_def)
  moreover have "sorted ks" using Cons.prems by simp
  ultimately show ?case using Cons.IH by simp
qed


lemma dated_of_timeline_date: "a \<in> set (dated_of as) \<Longrightarrow> timeline_date a \<noteq> None"
  by (auto simp: dated_of_def stamp_def split: option.splits)

lemma dated_of_dates:
  "concat (map (\<lambda>a. case timeline_date a of Some d \<Rightarrow> [d] | None \<Rightarrow> []) (dated_of as))
   = concat (map (\<lambda>a. case article_date a of Some d \<Rightarrow> [d] | None \<Rightarrow> []) as)"
  by (induction as) (auto simp: dated_of_def stamp_def split: option.splits)

lemma generate_timeline_snd:
  "snd (generate_timeline as) =
     (if mixed_awareness (resolved_dates as) then Inl TypeError
      else case group_articles_by_date (sort_key timeline_key (dated_of as)) of
             Inl e \<Rightarrow> Inl e
           | Inr gs \<Rightarrow> Inr \<lparr>events = extract_timeline_events gs,
                             chart = generate_chart_data (extract_timeline_events gs),
                             total_articles = length as\<rparr>)"
proof -
  have "sort_by_timeline_date (dated_of as) =
        (if mixed_awareness (resolved_dates as) then Inl TypeError
         else Inr (sort_key timeline_key (dated_of as)))"
    using dated_of_timeline_date [of _ as]
    by (auto simp: sort_by_timeline_date_def dated_of_dates resolved_dates_def)
  moreover obtain ms ds where fl: "filter_loop as = (ms, ds)" by (cases "filter_loop as")
  moreover from fl have "ds = dated_of as" using filter_loop_snd [of as] by simp
  ultimately show ?thesis
    by (simp add: generate_timeline_def filter_and_sort_articles_def Let_def split: sum.splits)
qed

lemma generate_timeline_events:
  assumes "snd (generate_timeline as) = Inr r"
  shows "\<not> mixed_awareness (resolved_dates as)"
    and "\<exists>gs. group_articles_by_date (sort_key timeline_key (dated_of as)) = Inr gs
              \<and> events r = extract_timeline_events gs
              \<and> map fst gs = foldl add_key [] (map article_day (sort_key timeline_key (dated_of as)))"
proof -
  show nm: "\<not> mixed_awareness (resolved_dates as)"
    using assms by (auto simp: generate_timeline_snd split: if_splits)
  have "\<forall>a \<in> set (sort_key timeline_key (dated_of as)). timeline_date a \<noteq> None"
    using dated_of_timeline_date by auto
  from group_loop_keys [OF this, of "[]"]
  obtain gs where gs: "group_articles_by_date (sort_key timeline_key (dated_of as)) = Inr gs"
      "map fst gs = foldl add_key [] (map article_day (sort_key timeline_key (dated_of as)))"
    by (auto simp: group_articles_by_date_def)
  with assms nm have "events r = extract_timeline_events gs"
    by (auto simp: generate_timeline_snd)
  with gs show "\<exists>gs. group_articles_by_date (sort_key timeline_key (dated_of as)) = Inr gs
              \<and> events r = extract_timeline_events gs
              \<and> map fst gs = foldl add_key [] (map article_day (sort_key timeline_key (dated_of as)))"
    by blast
qed

lemma generate_timeline_dates:
  "map_sum id (map ev_date \<circ> events) (snd (generate_timeline as)) =
     (if mixed_awareness (resolved_dates as) then Inl TypeError
      else Inr (foldl add_key [] (map article_day (sort_key timeline_key (dated_of as)))))"
proof (cases "mixed_awareness (resolved_dates as)")
  case True
  then show ?thesis by (simp add: generate_timeline_snd)
next
  case False
  have "\<forall>a \<in> set (sort_key timeline_key (dated_of as)). timeline_date a \<noteq> None"
    using dated_of_timeline_date by auto
  from group_loop_keys [OF this, of "[]"] False show ?thesis
    by (auto simp: generate_timeline_snd group_articles_by_date_def extract_timeline_events_def
        extract_loop_dates)
qed

lemma key_bangkok: "timeline_key (stamp article_bangkok) = (63839813400000000, 0, 0, 0, 0, 0, 0, 0)"
  by (simp add: stamp_def article_date_def ex_defs timeline_key_def cmp_key_def utc_instant_def
      ymd2ord_def days_before_year_def days_before_month_def)

lemma key_utc: "timeline_key (stamp article_utc) = (63839822400000000, 0, 0, 0, 0, 0, 0, 0)"
  by (simp add: stamp_def article_date_def ex_defs timeline_key_def cmp_key_def utc_instant_def
      ymd2ord_def days_before_year_def days_before_month_def)

lemma events_across_zones: "map_sum id (map ev_date \<circ> events) (snd (generate_timeline [article_utc, article_bangkok]))
   = Inr [(2024, 1, 2), (2024, 1, 1)]"
proof -
  have d: "dated_of [article_utc, article_bangkok] = [stamp article_utc, stamp article_bangkok]"
    by (simp add: dated_of_def article_date_def ex_defs)
  have m: "\<not> mixed_awareness (resolved_dates [article_utc, article_bangkok])"
    by (simp add: mixed_awareness_def resolved_dates_def article_date_def ex_defs)
  have k: "article_day (stamp article_bangkok) = (2024, 1, 2)" "article_day (stamp article_utc) = (2024, 1, 1)"
    by (simp_all add: article_day_def stamp_def article_date_def ex_defs date_key_def)
  show ?thesis
    by (simp add: generate_timeline_dates d m k key_bangkok key_utc add_key_def)
qed


lemma mixed_kinds_raise: "snd (generate_timeline [article_bangkok, article_scraped]) = Inl TypeError"
  by (simp add: generate_timeline_snd mixed_awareness_def resolved_dates_def article_date_def ex_defs)

lemma naive_key_mono:
  assumes "timeline_date a = Some d" "utcoffset d = None" "timeline_date b = Some e" "utcoffset e = None"
    and "timeline_key a \<le> timeline_key b"
  shows "article_day a \<le> article_day b"
  using assms by (auto simp: timeline_key_def cmp_key_def article_day_def date_key_def)

lemma dated_of_naive:
  assumes "\<forall>d \<in> set (resolved_dates as). utcoffset d = None" "a \<in> set (dated_of as)"
  shows "\<exists>d. timeline_date a = Some d \<and> utcoffset d = None"
proof -
  from assms(2) obtain a0 d where "a0 \<in> set as" "article_date a0 = Some d" "a = stamp a0"
    by (auto simp: dated_of_def)
  moreover from this have "d \<in> set (resolved_dates as)"
    by (force simp: resolved_dates_def)
  ultimately show ?thesis using assms(1) by (auto simp: stamp_def)
qed

lemma sorted_days_naive:
  assumes "\<forall>d \<in> set (resolved_dates as). utcoffset d = None"
  shows "sorted (map article_day (sort_key timeline_key (dated_of as)))"
proof -
  let ?ys = "sort_key timeline_key (dated_of as)"
  have "sorted (map timeline_key ?ys)" by (rule sorted_sort_key)
  then have "sorted_wrt (\<lambda>a b. timeline_key a \<le> timeline_key b) ?ys"
    by (simp add: sorted_map)
  moreover have "article_day a \<le> article_day b"
    if "a \<in> set ?ys" "b \<in> set ?ys" "timeline_key a \<le> timeline_key b" for a b
    using that dated_of_naive [OF assms, of a] dated_of_naive [OF assms, of b]
    by (auto intro: naive_key_mono)
  ultimately have "sorted_wrt (\<lambda>a b. article_day a \<le> article_day b) ?ys"
    by (rule sorted_wrt_mono_rel [rotated]) auto
  then show ?thesis by (simp add: sorted_map)
qed

lemma timeline_events_sorted_naive:
  assumes "\<forall>d \<in> set (resolved_dates as). utcoffset d = None"
  shows "\<exists>r. snd (generate_timeline as) = Inr r \<and> sorted_wrt (<) (map ev_date (events r))"
proof -
  have nm: "\<not> mixed_awareness (resolved_dates as)"
    using assms by (auto simp: mixed_awareness_def)
  have "\<forall>a \<in> set (sort_key timeline_key (dated_of as)). timeline_date a \<noteq> None"
    using dated_of_timeline_date by auto
  from group_loop_keys [OF this, of "[]"]
  obtain gs where gs: "group_articles_by_date (sort_key timeline_key (dated_of as)) = Inr gs"
      "map fst gs = foldl add_key [] (map article_day (sort_key timeline_key (dated_of as)))"
    by (auto simp: group_articles_by_date_def)
  have "sorted_wrt (<) (map fst gs)"
    unfolding gs(2) by (rule add_key_sorted) (simp_all add: sorted_days_naive [OF assms])
  with gs(1) nm show ?thesis
    by (simp add: generate_timeline_snd extract_timeline_events_def extract_loop_dates)
qed

lemma add_key_distinct: "distinct acc \<Longrightarrow> distinct (foldl add_key acc ks)"
  by (induction ks arbitrary: acc) (auto simp: add_key_def)

lemma timeline_events_distinct_days:
  "snd (generate_timeline as) = Inr r \<Longrightarrow> distinct (map ev_date (events r))"
  using generate_timeline_events(2) [of as r]
  by (auto simp: extract_timeline_events_def extract_loop_dates add_key_distinct)

lemma make_event_fields:
  "ev_date (make_event n d as) = d" "ev_article_count (make_event n d as) = length as"
  by (simp_all add: make_event_def Let_def)

lemma scenario_C:
  "map_sum id (map (\<lambda>e. (ev_date e, ev_article_count e)) \<circ> events)
     (snd (generate_timeline [article_day2, article_day1_evening, article_day1_morning]))
   = Inr [((2024, 1, 1), 2), ((2024, 1, 2), 1)]"
proof -
  let ?as = "[article_day2, article_day1_evening, article_day1_morning]"
  have d: "dated_of ?as = [stamp article_day2, stamp article_day1_evening, stamp article_day1_morning]"
    by (simp add: dated_of_def article_date_def ex_defs)
  have m: "\<not> mixed_awareness (resolved_dates ?as)"
    by (simp add: mixed_awareness_def resolved_dates_def article_date_def ex_defs)
  have t: "timeline_date (stamp article_day2) = Some (at_time 2024 1 2 7 0 None)"
      "timeline_date (stamp article_day1_evening) = Some (at_time 2024 1 1 18 0 None)"
      "timeline_date (stamp article_day1_morning) = Some (at_time 2024 1 1 9 0 None)"
    by (simp_all add: stamp_def article_date_def article_day2_def article_day1_evening_def
        article_day1_morning_def)
  have s: "sort_key timeline_key (dated_of ?as) =
           [stamp article_day1_morning, stamp article_day1_evening, stamp article_day2]"
    by (simp add: d timeline_key_def t cmp_key_def at_time_def)
  have g: "group_articles_by_date [stamp article_day1_morning, stamp article_day1_evening, stamp article_day2]
           = Inr [((2024, 1, 1), [stamp article_day1_morning, stamp article_day1_evening]),
                  ((2024, 1, 2), [stamp article_day2])]"
    by (simp add: group_articles_by_date_def t date_key_def at_time_def)
  show ?thesis
    by (simp add: generate_timeline_snd m s g extract_timeline_events_def make_event_fields)
qed

text \<open>
  Claim C9 as stated fails: the filtering loop of the timeline generator assigns the key
  \<^verbatim>\<open>timeline_date\<close> on the article it was given. Here the article had no such key
  before the call and holds its published date under it afterwards.
\<close>

theorem timeline_mutates_article:
  "fst (generate_timeline [article_day2]) \<noteq> [article_day2]
   \<and> map timeline_date (fst (generate_timeline [article_day2])) = [Some (at_time 2024 1 2 7 0 None)]
   \<and> map timeline_date [article_day2] = [None]"
proof -
  have "map timeline_date (fst (generate_timeline [article_day2])) = [Some (at_time 2024 1 2 7 0 None)]"
    by (simp add: generate_timeline_fst stamp_def article_date_def article_day2_def bare_article_def)
  moreover have "map timeline_date [article_day2] = [None]"
    by (simp add: article_day2_def bare_article_def)
  ultimately show ?thesis by force
qed

text \<open>
  Claim C9, amended. Timeline generation leaves every key of every input article as it was,
  except \<^verbatim>\<open>timeline_date\<close>, which it sets to the resolved date of each article that has
  one and leaves alone on the others. (Comparison assigns to no key of its arguments: its
  model is a function of the two records.)
\<close>

theorem generate_timeline_frame:
  "list_all2 same_enrichment (fst (generate_timeline as)) as
   \<and> map timeline_date (fst (generate_timeline as))
       = map (\<lambda>a. case article_date a of Some d \<Rightarrow> Some d | None \<Rightarrow> timeline_date a) as"
  by (simp add: generate_timeline_fst list_all2_map1 stamp_same_enrichment list_all2_same
      stamp_timeline_date)

text \<open>
  Claim C3 at two inputs the scraper can produce. First, two articles whose published dates
  carry different zones: sorted by instant, the article of the second of January (00:30 at
  +07:00) precedes the one of the first (20:00 at +00:00), and the events come out in that
  order, the later day first. Second, an article with an aware published date next to one
  dated by its naive scrape time: the sort raises and no timeline is returned. The chart
  data of the same result is sorted by date explicitly.
\<close>

theorem timeline_events_out_of_order:
  "map_sum id (map ev_date \<circ> events) (snd (generate_timeline [article_utc, article_bangkok]))
     = Inr [(2024, 1, 2), (2024, 1, 1)]
   \<and> snd (generate_timeline [article_bangkok, article_scraped]) = Inl TypeError"
  using events_across_zones mixed_kinds_raise by simp

subsection \<open>Sentiment\<close>

lemma keyword_tables_th_en:
  assumes "l = str ''th'' \<or> l = str ''en''"
  shows "\<exists>p n u. map_of positive_keywords l = Some p \<and> map_of negative_keywords l = Some n
           \<and> map_of neutral_keywords l = Some u"
  using assms by (auto simp: positive_keywords_def negative_keywords_def neutral_keywords_def str_def)






text \<open>
  The tables have no entry for the third tag of the language detection; with it the lookup
  raises on any non-empty content.
\<close>

lemma sentiment_mixed_raises:
  "analyze_sentiment (str ''x'') (str ''mixed'') = Inl (KeyError (str ''mixed''))"
  by (simp add: analyze_sentiment_def positive_keywords_def str_def)

subsection \<open>Entity and keyword similarity\<close>

lemma length_filter_remdups: "length (filter (\<lambda>e. e \<in> set ys) (remdups xs)) = card (set xs \<inter> set ys)"
proof -
  have "length (filter (\<lambda>e. e \<in> set ys) (remdups xs)) = card ({x. x \<in> set ys} \<inter> set (remdups xs))"
    by (rule distinct_length_filter) simp
  also have "{x. x \<in> set ys} \<inter> set (remdups xs) = set xs \<inter> set ys" by auto
  finally show ?thesis .
qed

lemma common_entities_length:
  "ent_total_common (compare_entities e1 e2) = spec_entity_common e1 e2"
proof -
  let ?ts = "remdups (map fst e1 @ map fst e2)"
  have "ent_total_common (compare_entities e1 e2)
        = sum_list (map (\<lambda>t. card (set (dict_get e1 t) \<inter> set (dict_get e2 t))) ?ts)"
    by (simp add: compare_entities_def Let_def length_concat comp_def length_filter_remdups)
  also have "\<dots> = (\<Sum>t \<in> set ?ts. card (set (dict_get e1 t) \<inter> set (dict_get e2 t)))"
    by (rule sum_list_distinct_conv_sum_set) simp
  finally show ?thesis by (simp add: spec_entity_common_def)
qed

lemma entity_total_length:
  assumes "duplicate_free e"
  shows "sum_list (map (\<lambda>(ty, es). length es) e) = spec_entity_total e"
proof -
  have d: "distinct (map fst e)" and l: "\<And>t es. (t, es) \<in> set e \<Longrightarrow> distinct es"
    using assms by (auto simp: duplicate_free_def list_all_iff)
  have "length es = card (set (dict_get e t))" if "(t, es) \<in> set e" for t es
    using that d l [OF that] by (simp add: dict_get_def distinct_card)
  then have "map (\<lambda>(ty, es). length es) e = map (\<lambda>p. card (set (dict_get e (fst p)))) e"
    by (intro map_cong) auto
  then have "sum_list (map (\<lambda>(ty, es). length es) e)
             = sum_list (map (\<lambda>t. card (set (dict_get e t))) (map fst e))"
    by (simp only: map_map comp_def)
  also have "\<dots> = (\<Sum>t \<in> set (map fst e). card (set (dict_get e t)))"
    by (rule sum_list_distinct_conv_sum_set) (rule d)
  finally show ?thesis by (simp add: spec_entity_total_def)
qed

lemma ent_similarity_eq:
  "ent_similarity (compare_entities e1 e2) =
     (let total = sum_list (map (\<lambda>(ty, es). length es) e1) + sum_list (map (\<lambda>(ty, es). length es) e2)
      in if total > 0 then real (2 * ent_total_common (compare_entities e1 e2)) / real total else 0)"
  by (simp only: compare_entities_def Let_def entity_comparison.select_convs)

lemma entity_dice:
  assumes "duplicate_free e1" "duplicate_free e2"
  shows "ent_similarity (compare_entities e1 e2)
         = spec_dice (spec_entity_common e1 e2) (spec_entity_total e1 + spec_entity_total e2)"
  using assms
  by (simp add: ent_similarity_eq common_entities_length entity_total_length spec_dice_def Let_def)

lemma dict_get_absent: "t \<notin> fst ` set e \<Longrightarrow> dict_get e t = []"
  by (simp add: dict_get_def map_of_eq_None_iff [THEN iffD2])

lemma entity_common_same:
  assumes "\<forall>t. set (dict_get e1 t) = set (dict_get e2 t)"
  shows "spec_entity_common e1 e2 = spec_entity_total e1"
proof -
  have "spec_entity_common e1 e2 = (\<Sum>t \<in> fst ` set e1 \<union> fst ` set e2. card (set (dict_get e1 t)))"
    using assms by (simp add: spec_entity_common_def)
  also have "\<dots> = (\<Sum>t \<in> fst ` set e1. card (set (dict_get e1 t)))"
    by (rule sum.mono_neutral_right) (auto simp: dict_get_absent)
  finally show ?thesis by (simp add: spec_entity_total_def)
qed

lemma set_keyword_set: "set (keyword_set kws) = keyword_strings kws"
  by (auto simp: keyword_set_def keyword_strings_def)

lemma distinct_keyword_set: "distinct (keyword_set kws)"
  by (simp add: keyword_set_def)

lemma keyword_dice:
  "kw_similarity (compare_keywords k1 k2)
   = spec_dice (card (keyword_strings k1 \<inter> keyword_strings k2))
       (card (keyword_strings k1) + card (keyword_strings k2))"
proof -
  have c: "length (filter (\<lambda>k. k \<in> set (keyword_set k2)) (keyword_set k1))
           = card (keyword_strings k1 \<inter> keyword_strings k2)"
  proof -
    have "length (filter (\<lambda>k. k \<in> set (keyword_set k2)) (keyword_set k1))
          = card ({x. x \<in> set (keyword_set k2)} \<inter> set (keyword_set k1))"
      by (rule distinct_length_filter) (rule distinct_keyword_set)
    also have "{x. x \<in> set (keyword_set k2)} \<inter> set (keyword_set k1)
               = keyword_strings k1 \<inter> keyword_strings k2"
      by (auto simp: set_keyword_set)
    finally show ?thesis .
  qed
  have l: "length (keyword_set k) = card (keyword_strings k)" for k
    by (metis distinct_card distinct_keyword_set set_keyword_set)
  have "kw_similarity (compare_keywords k1 k2)
        = (if length (keyword_set k1) + length (keyword_set k2) > 0
           then real (2 * length (filter (\<lambda>k. k \<in> set (keyword_set k2)) (keyword_set k1)))
                / real (length (keyword_set k1) + length (keyword_set k2))
           else 0)"
    by (simp only: compare_keywords_def Let_def keyword_comparison.select_convs)
  then show ?thesis
    by (simp only: c l spec_dice_def) simp
qed

text \<open>
  Claim C7. For two articles whose entity lists have no repeated entity, the entity
  similarity is twice the number of common entities, counted per entity type, over the sum
  of the numbers of entities of the two articles, and the keyword similarity is the same
  quotient over the two sets of keyword strings (the sets the code forms, which hold no
  blank string). Each similarity is 0 when both of its sets are empty and 1 when they are
  identical and not empty.
\<close>

theorem dice_similarities:
  assumes "duplicate_free e1" "duplicate_free e2"
  shows "ent_similarity (compare_entities e1 e2)
           = spec_dice (spec_entity_common e1 e2) (spec_entity_total e1 + spec_entity_total e2)
       \<and> kw_similarity (compare_keywords k1 k2)
           = spec_dice (card (keyword_strings k1 \<inter> keyword_strings k2))
               (card (keyword_strings k1) + card (keyword_strings k2))
       \<and> (spec_entity_total e1 = 0 \<and> spec_entity_total e2 = 0 \<longrightarrow> ent_similarity (compare_entities e1 e2) = 0)
       \<and> (keyword_strings k1 = {} \<and> keyword_strings k2 = {} \<longrightarrow> kw_similarity (compare_keywords k1 k2) = 0)
       \<and> ((\<forall>t. set (dict_get e1 t) = set (dict_get e2 t)) \<and> spec_entity_total e1 > 0
            \<longrightarrow> ent_similarity (compare_entities e1 e2) = 1)
       \<and> (keyword_strings k1 = keyword_strings k2 \<and> keyword_strings k1 \<noteq> {}
            \<longrightarrow> kw_similarity (compare_keywords k1 k2) = 1)"
proof -
  have same_total: "spec_entity_total e1 = spec_entity_total e2"
    if "\<forall>t. set (dict_get e1 t) = set (dict_get e2 t)"
  proof -
    have "spec_entity_common e1 e2 = spec_entity_total e1" using that by (rule entity_common_same)
    moreover have "spec_entity_common e2 e1 = spec_entity_total e2"
      using that by (intro entity_common_same) simp
    moreover have "spec_entity_common e1 e2 = spec_entity_common e2 e1"
      by (simp add: spec_entity_common_def Un_commute Int_commute)
    ultimately show ?thesis by simp
  qed
  have fin: "finite (keyword_strings k)" for k by (simp add: keyword_strings_def)
  have e0: "ent_similarity (compare_entities e1 e2) = 0"
    if "spec_entity_total e1 = 0 \<and> spec_entity_total e2 = 0"
    using that by (simp add: entity_dice [OF assms] spec_dice_def)
  have k0: "kw_similarity (compare_keywords k1 k2) = 0"
    if "keyword_strings k1 = {} \<and> keyword_strings k2 = {}"
    using that by (simp add: keyword_dice spec_dice_def)
  have e1: "ent_similarity (compare_entities e1 e2) = 1"
    if "(\<forall>t. set (dict_get e1 t) = set (dict_get e2 t)) \<and> spec_entity_total e1 > 0"
  proof -
    from that have s: "\<forall>t. set (dict_get e1 t) = set (dict_get e2 t)" and p: "spec_entity_total e1 > 0"
      by simp_all
    show ?thesis
      using p same_total [OF s] entity_common_same [OF s]
      by (simp add: entity_dice [OF assms] spec_dice_def)
  qed
  have k1: "kw_similarity (compare_keywords k1 k2) = 1"
    if "keyword_strings k1 = keyword_strings k2 \<and> keyword_strings k1 \<noteq> {}"
  proof -
    from that have "keyword_strings k2 \<noteq> {}" by auto
    with fin [of k2] have "card (keyword_strings k2) > 0" by (simp add: card_gt_0_iff)
    with that show ?thesis by (simp add: keyword_dice spec_dice_def)
  qed
  show ?thesis
    using e0 k0 e1 k1 entity_dice [OF assms] keyword_dice by blast
qed


theorem dice_similarities_witness:
  "duplicate_free example_entities
   \<and> ent_similarity (compare_entities example_entities example_entities) = 1
   \<and> kw_similarity (compare_keywords example_keywords example_keywords) = 1
   \<and> duplicate_free []
   \<and> ent_similarity (compare_entities [] []) = 0
   \<and> kw_similarity (compare_keywords [] []) = 0"
proof -
  have d: "duplicate_free example_entities" "duplicate_free []"
    by (simp_all add: duplicate_free_def example_entities_def str_def)
  have t: "spec_entity_total example_entities > 0"
    by (simp add: spec_entity_total_def example_entities_def dict_get_def str_def)
  have "str ''flood'' \<in> keyword_strings example_keywords"
    by (simp add: keyword_strings_def example_keywords_def kw_keyword_def py_strip_def
        is_space_def str_def)
  then have k: "keyword_strings example_keywords \<noteq> {}" by blast
  have z: "spec_entity_total [] = 0" "keyword_strings [] = {}"
    by (simp_all add: spec_entity_total_def keyword_strings_def)
  show ?thesis
    using dice_similarities [OF d(1) d(1), of example_keywords example_keywords]
          dice_similarities [OF d(2) d(2), of "[]" "[]"] d t k z
    by simp
qed

subsection \<open>The similarity matrix\<close>

lemma matrix_set_pair:
  assumes "symmetric_zero_diagonal n m" "i < n" "j < n" "i \<noteq> j"
  shows "symmetric_zero_diagonal n (matrix_set (matrix_set m i j x) j i x)"
proof -
  let ?m' = "matrix_set (matrix_set m i j x) j i x"
  from assms(1) have len: "length m = n" and rows: "\<And>a. a < n \<Longrightarrow> length (m ! a) = n"
    and sym: "\<And>a b. a < n \<Longrightarrow> b < n \<Longrightarrow> m ! a ! b = m ! b ! a"
    and diag: "\<And>a. a < n \<Longrightarrow> m ! a ! a = 0"
    by (simp_all add: symmetric_zero_diagonal_def)
  have entry: "?m' ! a ! b = (if (a = i \<and> b = j) \<or> (a = j \<and> b = i) then x else m ! a ! b)"
    if "a < n" "b < n" for a b
  proof -
    have r1: "length (m[i := (m ! i)[j := x]]) = n" using len by simp
    have e1: "m[i := (m ! i)[j := x]] ! a = (if a = i then (m ! i)[j := x] else m ! a)" for a
      using len assms(2) by (simp add: nth_list_update)
    show ?thesis
      using that assms(2-4) len rows [of a] rows [of i] rows [of j]
      by (simp add: matrix_set_def nth_list_update e1)
  qed
  have len': "length ?m' = n" using len by (simp add: matrix_set_def)
  have rows': "length (?m' ! a) = n" if "a < n" for a
    using that len rows [of a] rows [of i] rows [of j] assms(2-4)
    by (simp add: matrix_set_def nth_list_update)
  show ?thesis
    unfolding symmetric_zero_diagonal_def
  proof (intro conjI allI impI)
    show "length ?m' = n" by (rule len')
    show "length (?m' ! a) = n" if "a < n" for a using that by (rule rows')
    show "?m' ! a ! b = ?m' ! b ! a" if "a < n" "b < n" for a b
      using that sym [of a b] by (simp add: entry)
    show "?m' ! a ! a = 0" if "a < n" for a
      using that diag [of a] assms(4) by (simp add: entry)
  qed
qed

lemma inner_loop_matrix:
  assumes "symmetric_zero_diagonal n (fst st)" "i < n" "\<forall>j \<in> set js. j < n \<and> j \<noteq> i"
    and "inner_loop as i js st = Inr st'"
  shows "symmetric_zero_diagonal n (fst st')"
  using assms
proof (induction js arbitrary: st)
  case Nil
  then show ?case by simp
next
  case (Cons j js)
  obtain m cs where st: "st = (m, cs)" by (cases st)
  from Cons.prems(4) st obtain c where c: "compare_articles (as ! i) (as ! j) = Inr c"
    by (auto split: sum.splits)
  let ?st = "(matrix_set (matrix_set m i j (similarity_score c)) j i (similarity_score c),
             cs @ [\<lparr>article1_index = i, article2_index = j, pair_score = similarity_score c, pair_result = c\<rparr>])"
  have "symmetric_zero_diagonal n (fst ?st)"
    using Cons.prems(1-3) st by (simp add: matrix_set_pair)
  moreover have "inner_loop as i js ?st = Inr st'"
    using Cons.prems(4) st c by simp
  ultimately show ?case
    using Cons.IH [of ?st] Cons.prems(2,3) by simp
qed

lemma zeros_matrix: "symmetric_zero_diagonal n (replicate n (replicate n 0))"
  by (simp add: symmetric_zero_diagonal_def)

lemma outer_loop_step:
  assumes "outer_loop as (i # is) st = Inr st'"
  shows "\<exists>st1. inner_loop as i [i + 1 ..< length as] st = Inr st1 \<and> outer_loop as is st1 = Inr st'"
proof (cases "inner_loop as i [i + 1 ..< length as] st")
  case (Inl e)
  with assms show ?thesis by (simp only: outer_loop.simps sum.case) simp
next
  case (Inr st1)
  with assms show ?thesis by (simp only: outer_loop.simps sum.case) simp
qed


lemma outer_loop_matrix:
  assumes "symmetric_zero_diagonal (length as) (fst st)" "\<forall>i \<in> set is. i < length as"
    and "outer_loop as is st = Inr st'"
  shows "symmetric_zero_diagonal (length as) (fst st')"
  using assms
proof (induction "is" arbitrary: st)
  case Nil
  then show ?case by simp
next
  case (Cons i "is")
  from outer_loop_step [OF Cons.prems(3)] obtain st1 where
    s1: "inner_loop as i [i + 1 ..< length as] st = Inr st1" and s2: "outer_loop as is st1 = Inr st'"
    by blast
  have i: "i < length as" using Cons.prems(2) by simp
  have js: "\<forall>j \<in> set [i + 1 ..< length as]. j < length as \<and> j \<noteq> i" by simp
  have "symmetric_zero_diagonal (length as) (fst st1)"
    by (rule inner_loop_matrix [OF Cons.prems(1) i js s1])
  moreover have "\<forall>i \<in> set is. i < length as" using Cons.prems(2) by simp
  ultimately show ?case using s2 by (rule Cons.IH)
qed


text \<open>
  Claim C10. For a list of two or more articles, the similarity matrix that
  \<^verbatim>\<open>compare_multiple_articles\<close> returns is square of the size of the list, symmetric,
  and zero on its diagonal: the loops visit the pairs \<open>i < j\<close> only and write each score
  at \<open>(i, j)\<close> and at \<open>(j, i)\<close>.
\<close>

theorem similarity_matrix_symmetric:
  assumes "length as \<ge> 2" "compare_multiple_articles as = Inr res"
  shows "\<exists>r. res = Compared r \<and> symmetric_zero_diagonal (length as) (similarity_matrix r)"
proof -
  let ?init = "(replicate (length as) (replicate (length as) (0::real)), [] :: pair_comparison list)"
  have n2: "\<not> length as < 2" using assms(1) by simp
  show ?thesis
  proof (cases "outer_loop as [0 ..< length as] ?init")
    case (Inl e)
    with assms(2) n2 show ?thesis by (simp add: compare_multiple_articles_def)
  next
    case (Inr st)
    obtain m cs where st: "st = (m, cs)" by (cases st)
    have "symmetric_zero_diagonal (length as) (fst st)"
      by (rule outer_loop_matrix [OF _ _ Inr]) (simp_all add: zeros_matrix)
    then have inv: "symmetric_zero_diagonal (length as) m" using st by simp
    show ?thesis
    proof (cases cs)
      case Nil
      with assms(2) n2 Inr st show ?thesis by (simp add: compare_multiple_articles_def)
    next
      case (Cons c cs')
      with assms(2) n2 Inr st inv show ?thesis
        by (auto simp add: compare_multiple_articles_def Let_def)
    qed
  qed
qed


lemma analyze_sentiment_returns:
  assumes "l = str ''th'' \<or> l = str ''en''"
  shows "\<exists>s. analyze_sentiment c l = Inr s"
proof -
  from keyword_tables_th_en [OF assms] obtain p n u where
    "map_of positive_keywords l = Some p" "map_of negative_keywords l = Some n"
    "map_of neutral_keywords l = Some u" by blast
  then show ?thesis by (simp add: analyze_sentiment_def Let_def)
qed

lemma compare_articles_returns:
  assumes "language a = str ''th'' \<or> language a = str ''en''"
  shows "\<exists>c. compare_articles a b = Inr c"
proof -
  from analyze_sentiment_returns [OF assms] obtain s1 s2 where
    "analyze_sentiment (content a) (language a) = Inr s1"
    "analyze_sentiment (content b) (language a) = Inr s2" by blast
  then show ?thesis
    by (simp add: compare_articles_def analyze_sentiment_comparison_def Let_def)
qed

lemma inner_loop_returns:
  assumes "language (as ! i) = str ''th'' \<or> language (as ! i) = str ''en''"
  shows "\<exists>st'. inner_loop as i js st = Inr st' \<and> length (snd st') = length (snd st) + length js"
proof (induction js arbitrary: st)
  case Nil
  then show ?case by simp
next
  case (Cons j js)
  obtain m cs where st: "st = (m, cs)" by (cases st)
  from compare_articles_returns [OF assms] obtain c where
    c: "compare_articles (as ! i) (as ! j) = Inr c" by blast
  let ?st = "(matrix_set (matrix_set m i j (similarity_score c)) j i (similarity_score c),
             cs @ [\<lparr>article1_index = i, article2_index = j, pair_score = similarity_score c, pair_result = c\<rparr>])"
  from Cons.IH [of ?st] obtain st' where
    "inner_loop as i js ?st = Inr st'" "length (snd st') = length (snd ?st) + length js" by blast
  with st c show ?case by simp
qed

lemma outer_loop_returns:
  assumes "\<forall>i \<in> set is. i < length as"
    and "\<forall>a \<in> set as. language a = str ''th'' \<or> language a = str ''en''"
  shows "\<exists>st'. outer_loop as is st = Inr st' \<and> length (snd st') \<ge> length (snd st)"
  using assms(1)
proof (induction "is" arbitrary: st)
  case Nil
  then show ?case by simp
next
  case (Cons i "is")
  have "language (as ! i) = str ''th'' \<or> language (as ! i) = str ''en''"
    using Cons.prems assms(2) by simp
  from inner_loop_returns [OF this, of "[i + 1 ..< length as]" st] obtain st1 where
    s1: "inner_loop as i [i + 1 ..< length as] st = Inr st1" "length (snd st1) \<ge> length (snd st)"
    by auto
  from Cons.IH [of st1] Cons.prems obtain st' where
    "outer_loop as is st1 = Inr st'" "length (snd st') \<ge> length (snd st1)" by auto
  with s1 show ?case by (simp only: outer_loop.simps sum.case) auto
qed

text \<open>The comparison of two or more articles returns whenever every language tag is \<open>th\<close> or \<open>en\<close>.\<close>

lemma compare_multiple_articles_returns:
  assumes "length as \<ge> 2"
    and "\<forall>a \<in> set as. language a = str ''th'' \<or> language a = str ''en''"
  shows "\<exists>r. compare_multiple_articles as = Inr (Compared r)"
proof -
  let ?init = "(replicate (length as) (replicate (length as) (0::real)), [] :: pair_comparison list)"
  have n2: "\<not> length as < 2" using assms(1) by simp
  have "0 < length as" using assms(1) by linarith
  then have "[0 ..< length as] = 0 # [Suc 0 ..< length as]" by (rule upt_conv_Cons)
  then have u: "[0 ..< length as] = 0 # [1 ..< length as]" by simp
  have l0: "language (as ! 0) = str ''th'' \<or> language (as ! 0) = str ''en''"
    using assms by (metis length_greater_0_conv list.size(3) not_numeral_le_zero nth_mem)
  from inner_loop_returns [OF l0, of "[0 + 1 ..< length as]" ?init] obtain st1 where
    s1: "inner_loop as 0 [0 + 1 ..< length as] ?init = Inr st1" "length (snd st1) = length as - 1"
    by auto
  from outer_loop_returns [OF _ assms(2), of "[1 ..< length as]" st1] obtain st' where
    s2: "outer_loop as [1 ..< length as] st1 = Inr st'" "length (snd st') \<ge> length (snd st1)"
    by auto
  have o: "outer_loop as [0 ..< length as] ?init = Inr st'"
    using s1(1) s2(1) by (simp only: u outer_loop.simps sum.case)
  obtain m cs where st: "st' = (m, cs)" by (cases st')
  with s1(2) s2(2) assms(1) have "cs \<noteq> []" by auto
  then obtain c cs' where "cs = c # cs'" by (cases cs) auto
  with o st n2 show ?thesis
    by (simp add: compare_multiple_articles_def Let_def)
qed

theorem similarity_matrix_symmetric_witness:
  "2 \<le> length [article_day1_morning, article_day2]
   \<and> (\<exists>r. compare_multiple_articles [article_day1_morning, article_day2] = Inr (Compared r)
          \<and> symmetric_zero_diagonal 2 (similarity_matrix r))"
proof -
  have l: "\<forall>a \<in> set [article_day1_morning, article_day2]. language a = str ''th'' \<or> language a = str ''en''"
    by (simp add: article_day1_morning_def article_day2_def bare_article_def)
  from compare_multiple_articles_returns [OF _ l] obtain r where
    r: "compare_multiple_articles [article_day1_morning, article_day2] = Inr (Compared r)" by auto
  have "symmetric_zero_diagonal (length [article_day1_morning, article_day2]) (similarity_matrix r)"
    using similarity_matrix_symmetric [OF _ r] by simp
  then have "symmetric_zero_diagonal 2 (similarity_matrix r)"
    by (simp add: numeral_2_eq_2)
  with r show ?thesis by simp
qed

subsection \<open>The vectoriser and the cosine\<close>

lemma dot_commute: "dot u v = dot v u"
proof (induction u arbitrary: v)
  case Nil
  then show ?case by (simp add: dot_def)
next
  case (Cons x u)
  show ?case
  proof (cases v)
    case Nil
    then show ?thesis by (simp add: dot_def)
  next
    case (Cons y v')
    with Cons.IH [of v'] show ?thesis by (simp add: dot_def mult.commute)
  qed
qed

lemma dot_self: "dot v v = sum_list (map (\<lambda>x. x * x) v)"
  by (induction v) (simp_all add: dot_def)

lemma sum_squares_nonneg: "0 \<le> sum_list (map (\<lambda>x. x * x) (v :: real list))"
  by (rule sum_list_nonneg) auto

lemma norm2_square: "norm2 v * norm2 v = sum_list (map (\<lambda>x. x * x) v)"
  by (simp add: norm2_def sum_squares_nonneg)

lemma norm2_nonneg: "0 \<le> norm2 v"
  by (simp add: norm2_def sum_squares_nonneg)

lemma sum_squares_scaled:
  "sum_list (map (\<lambda>x. x * x) (map (\<lambda>x. x / c) v)) = sum_list (map (\<lambda>x. x * x) v) / (c * c)"
  for c :: real
  by (induction v) (simp_all add: add_divide_distrib)

lemma norm2_normalized:
  assumes "norm2 v \<noteq> 0"
  shows "norm2 (l2_normalize v) = 1"
proof -
  have "sum_list (map (\<lambda>x. x * x) (l2_normalize v)) = sum_list (map (\<lambda>x. x * x) v) / (norm2 v * norm2 v)"
    using assms by (simp only: l2_normalize_def if_False sum_squares_scaled)
  also have "\<dots> = 1" using assms by (simp add: norm2_square [symmetric])
  finally show ?thesis by (simp add: norm2_def)
qed

lemma cosine_self:
  assumes "norm2 v \<noteq> 0"
  shows "cosine_similarity (l2_normalize v) (l2_normalize v) = 1"
proof -
  let ?u = "l2_normalize v"
  have n: "norm2 ?u = 1" by (rule norm2_normalized [OF assms])
  then have "l2_normalize ?u = ?u" by (simp add: l2_normalize_def [of ?u])
  then have "cosine_similarity ?u ?u = dot ?u ?u" by (simp add: cosine_similarity_def)
  also have "\<dots> = norm2 ?u * norm2 ?u" by (simp add: dot_self norm2_square)
  finally show ?thesis using n by simp
qed

lemma cosine_commute: "cosine_similarity u v = cosine_similarity v u"
  by (simp add: cosine_similarity_def dot_commute)

lemma vocabulary_commute: "vocabulary t1 t2 = vocabulary t2 t1"
proof -
  have "sort (remdups (t1 @ t2)) = sort (remdups (t2 @ t1))"
    by (rule sorted_distinct_set_unique) auto
  moreover have "(\<lambda>t. count_list t1 t + count_list t2 t) = (\<lambda>t. count_list t2 t + count_list t1 t)"
    by (rule ext) simp
  ultimately show ?thesis by (simp add: vocabulary_def)
qed

lemma idf_commute: "idf [t1, t2] t = idf [t2, t1] t"
  by (simp add: idf_def doc_freq_def)

lemma tfidf_row_commute: "tfidf_row [t1, t2] vocab d = tfidf_row [t2, t1] vocab d"
  by (simp add: tfidf_row_def idf_commute)

lemma tfidf_cosine_commute: "tfidf_cosine e d1 d2 = tfidf_cosine e d2 d1"
proof -
  have "cosine_similarity (tfidf_row [t1, t2] (vocabulary t1 t2) t1) (tfidf_row [t1, t2] (vocabulary t1 t2) t2)
        = cosine_similarity (tfidf_row [t2, t1] (vocabulary t2 t1) t2) (tfidf_row [t2, t1] (vocabulary t2 t1) t1)"
    for t1 t2
    by (simp add: vocabulary_commute [of t1 t2] tfidf_row_commute [of t1 t2] cosine_commute)
  then show ?thesis
    by (auto simp: tfidf_cosine_def Let_def)
qed


lemma limit_features_subset: "set (limit_features k f vocab) \<subseteq> set vocab"
  by (auto simp: limit_features_def Let_def)

lemma limit_features_nonempty:
  assumes "vocab \<noteq> []" "0 < k"
  shows "limit_features k f vocab \<noteq> []"
proof (cases "length vocab > k")
  case False
  with assms show ?thesis by (simp add: limit_features_def)
next
  case True
  let ?kept = "take k (sort_key (\<lambda>t. - int (f t)) vocab)"
  have "length ?kept = min (length vocab) k" by simp
  also have "\<dots> = k" using True by simp
  finally have "length ?kept = k" .
  with assms(2) have "length ?kept \<noteq> 0" by simp
  then have "?kept \<noteq> []" by (simp only: length_0_conv not_False_eq_True)
  then obtain x where x: "x \<in> set ?kept" by (cases ?kept) auto
  then have "x \<in> set vocab" by (auto dest: in_set_takeD)
  with x have "x \<in> set (filter (\<lambda>t. t \<in> set ?kept) vocab)" by simp
  then have "filter (\<lambda>t. t \<in> set ?kept) vocab \<noteq> []" by (metis empty_iff empty_set)
  with True show ?thesis by (simp add: limit_features_def Let_def)
qed

lemma vocabulary_self:
  assumes "t \<noteq> []"
  shows "vocabulary t t \<noteq> []" and "set (vocabulary t t) \<subseteq> set t"
proof -
  have "sort (remdups (t @ t)) \<noteq> []" using assms by (metis append_is_Nil_conv remdups_eq_nil_iff set_empty set_sort)
  then show "vocabulary t t \<noteq> []" by (simp add: vocabulary_def limit_features_nonempty)
  show "set (vocabulary t t) \<subseteq> set t"
    using limit_features_subset [of 1000 _ "sort (remdups (t @ t))"] by (auto simp: vocabulary_def)
qed

lemma sum_squares_pos:
  assumes "v \<noteq> []" "\<forall>x \<in> set v. 1 \<le> (x :: real)"
  shows "0 < sum_list (map (\<lambda>x. x * x) v)"
proof (cases v)
  case Nil
  with assms show ?thesis by simp
next
  case (Cons x v')
  have "1 \<le> x" using assms(2) Cons by simp
  then have "1 * 1 \<le> x * x" by (intro mult_mono) simp_all
  then have "1 \<le> x * x" by simp
  moreover have "0 \<le> sum_list (map (\<lambda>x. x * x) v')" by (rule sum_squares_nonneg)
  ultimately show ?thesis using Cons by simp
qed

lemma tfidf_cosine_self: "tfidf_cosine e d d = (if analyze e d = [] then None else Some 1)"
proof (cases "analyze e d = []")
  case True
  then show ?thesis by (simp add: tfidf_cosine_def)
next
  case False
  let ?t = "analyze e d"
  let ?w = "map (\<lambda>x. real (count_list ?t x) * idf [?t, ?t] x) (vocabulary ?t ?t)"
  have entry: "1 \<le> real (count_list ?t x) * idf [?t, ?t] x" if "x \<in> set (vocabulary ?t ?t)" for x
  proof -
    from that vocabulary_self(2) [OF False] have x: "x \<in> set ?t" by auto
    then have "idf [?t, ?t] x = 1" by (simp add: idf_def doc_freq_def)
    moreover from x have "count_list ?t x \<noteq> 0" by (simp add: count_list_0_iff)
    then have "1 \<le> real (count_list ?t x)" by simp
    ultimately show ?thesis by simp
  qed
  have "0 < sum_list (map (\<lambda>x. x * x) ?w)"
    by (rule sum_squares_pos) (use vocabulary_self(1) [OF False] entry in auto)
  then have "norm2 ?w \<noteq> 0" by (simp add: norm2_def)
  then have "cosine_similarity (l2_normalize ?w) (l2_normalize ?w) = 1" by (rule cosine_self)
  with False show ?thesis by (simp add: tfidf_cosine_def Let_def tfidf_row_def)
qed

subsection \<open>Comparing two articles\<close>

lemma analyze_empty: "analyze e [] = []"
  by (simp add: analyze_def sk_tokenize_def py_lower_def word_ngrams_def Let_def)

lemma content_similarity_commute:
  "calculate_content_similarity c1 c2 l = calculate_content_similarity c2 c1 l"
  by (auto simp: calculate_content_similarity_def Let_def tfidf_cosine_commute [of _ "preprocess_text c1 l"])

lemma content_similarity_self:
  "calculate_content_similarity c c l
   = (if analyze (l = str ''en'') (preprocess_text c l) = [] then 0 else 1)"
proof (cases "c = [] \<or> preprocess_text c l = []")
  case True
  then have "analyze (l = str ''en'') (preprocess_text c l) = []"
    by (auto simp: analyze_empty preprocess_text_def)
  with True show ?thesis by (auto simp: calculate_content_similarity_def Let_def)
next
  case False
  then show ?thesis
    by (simp add: calculate_content_similarity_def Let_def tfidf_cosine_self)
qed



lemma overall_range: "0 \<le> calculate_overall_similarity x y z \<and> calculate_overall_similarity x y z \<le> 1"
  by (simp add: calculate_overall_similarity_def Let_def)


lemma the_stop: "str ''the'' \<in> set english_stop_words"
  by (simp add: english_stop_words_def str_def)







lemma ent_similarity_commute:
  "ent_similarity (compare_entities e1 e2) = ent_similarity (compare_entities e2 e1)"
proof -
  have "spec_entity_common e1 e2 = spec_entity_common e2 e1"
    by (simp add: spec_entity_common_def Un_commute Int_commute)
  then have "ent_total_common (compare_entities e1 e2) = ent_total_common (compare_entities e2 e1)"
    by (simp only: common_entities_length)
  moreover have "sum_list (map (\<lambda>(ty, es). length es) e1) + sum_list (map (\<lambda>(ty, es). length es) e2)
        = sum_list (map (\<lambda>(ty, es). length es) e2) + sum_list (map (\<lambda>(ty, es). length es) e1)"
    by (rule add.commute)
  ultimately show ?thesis
    by (simp only: ent_similarity_eq Let_def)
qed

lemma kw_similarity_commute:
  "kw_similarity (compare_keywords k1 k2) = kw_similarity (compare_keywords k2 k1)"
  by (simp add: keyword_dice Int_commute add.commute)

lemma compare_articles_score:
  assumes "compare_articles a b = Inr c"
  shows "similarity_score c =
           calculate_overall_similarity (calculate_content_similarity (content a) (content b) (language a))
             (ent_similarity (compare_entities (entities a) (entities b)))
             (kw_similarity (compare_keywords (article_keywords a) (article_keywords b)))"
    and "content_similarity c = calculate_content_similarity (content a) (content b) (language a)"
    and "content_differences c = find_content_differences (content a) (content b) (language a)"
  using assms by (auto simp: compare_articles_def Let_def split: sum.splits)






lemma bare_th: "str ''th'' \<noteq> str ''en''"
  by (simp add: str_def)

lemma no_entities_no_keywords:
  "ent_similarity (compare_entities [] []) = 0" "kw_similarity (compare_keywords [] []) = 0"
  by (simp_all add: compare_entities_def compare_keywords_def keyword_set_def Let_def)




text \<open>
  Claim C2, amended. For two articles with the same language tag, \<open>th\<close> or \<open>en\<close>, the
  comparison returns in both orders with the same overall score; whenever a comparison
  returns, its overall score lies between 0 and 1.
\<close>

theorem compare_symmetric:
  assumes "language a = language b" "language a = str ''th'' \<or> language a = str ''en''"
  shows "(\<exists>c c'. compare_articles a b = Inr c \<and> compare_articles b a = Inr c'
            \<and> similarity_score c = similarity_score c')
       \<and> (\<forall>x y r. compare_articles x y = Inr r \<longrightarrow> 0 \<le> similarity_score r \<and> similarity_score r \<le> 1)"
proof -
  from compare_articles_returns [OF assms(2)] obtain c where c: "compare_articles a b = Inr c"
    by blast
  have "language b = str ''th'' \<or> language b = str ''en''" using assms by simp
  from compare_articles_returns [OF this] obtain c' where c': "compare_articles b a = Inr c'"
    by blast
  have "calculate_content_similarity (content a) (content b) (language a)
        = calculate_content_similarity (content b) (content a) (language b)"
    using assms(1) by (simp add: content_similarity_commute [of "content a"])
  then have "similarity_score c = similarity_score c'"
    using ent_similarity_commute [of "entities a" "entities b"]
      kw_similarity_commute [of "article_keywords a" "article_keywords b"]
    by (simp add: compare_articles_score(1) [OF c] compare_articles_score(1) [OF c'])
  moreover have "0 \<le> similarity_score r \<and> similarity_score r \<le> 1"
    if "compare_articles x y = Inr r" for x y r
    using overall_range by (simp add: compare_articles_score(1) [OF that])
  ultimately show ?thesis using c c' by blast
qed

theorem compare_symmetric_witness:
  "\<exists>c c'. compare_articles article_flood article_full = Inr c
       \<and> compare_articles article_full article_flood = Inr c'
       \<and> similarity_score c = similarity_score c'
       \<and> 0 \<le> similarity_score c \<and> similarity_score c \<le> 1"
proof -
  have l: "language article_flood = language article_full"
      "language article_flood = str ''th'' \<or> language article_flood = str ''en''"
    by (simp_all add: article_flood_def article_full_def bare_article_def)
  from compare_symmetric [OF l] show ?thesis by blast
qed

lemma the_only_stop_words: "analyze True (preprocess_text (str ''the'') (str ''en'')) = []"
proof -
  have "[116, 104, 101] \<in> set english_stop_words"
    using the_stop by (simp add: str_def)
  then show ?thesis
    by (simp add: analyze_def preprocess_text_def blank_punctuation_def py_lower_def py_strip_def
        sk_tokenize_def word_ngrams_def is_space_def is_word_def Let_def str_def)
qed

lemma the_is_a_term: "analyze False (preprocess_text (str ''the'') (str ''th'')) \<noteq> []"
  by (simp add: analyze_def preprocess_text_def blank_punctuation_def py_lower_def py_strip_def
      sk_tokenize_def word_ngrams_def is_space_def is_word_def Let_def str_def)

text \<open>
  Claim C2 as stated fails for articles of different languages: the vectoriser removes the
  English stop words when the first article is tagged \<open>en\<close> and only then. Two articles
  with the content "the", one tagged \<open>en\<close> and one tagged \<open>th\<close>: with the English one
  first no term is left, the library raises and the content similarity is 0; with the Thai
  one first the two documents are equal and the content similarity is 1.
\<close>

theorem language_of_first_article_decides:
  "map_sum id similarity_score (compare_articles article_the_en article_the_th) = Inr 0
   \<and> map_sum id similarity_score (compare_articles article_the_th article_the_en) = Inr 0.5"
proof -
  have e: "calculate_content_similarity (str ''the'') (str ''the'') (str ''en'') = 0"
    using the_only_stop_words by (simp add: content_similarity_self)
  have t: "calculate_content_similarity (str ''the'') (str ''the'') (str ''th'') = 1"
    using the_is_a_term by (simp add: content_similarity_self bare_th)
  have le: "language article_the_en = str ''th'' \<or> language article_the_en = str ''en''"
    by (simp add: article_the_en_def bare_article_def)
  have lt: "language article_the_th = str ''th'' \<or> language article_the_th = str ''en''"
    by (simp add: article_the_th_def bare_article_def)
  from compare_articles_returns [OF le] obtain c1 where
    c1: "compare_articles article_the_en article_the_th = Inr c1" by blast
  from compare_articles_returns [OF lt] obtain c2 where
    c2: "compare_articles article_the_th article_the_en = Inr c2" by blast
  have "similarity_score c1 = 0"
    using compare_articles_score(1) [OF c1] e
    by (simp add: article_the_en_def article_the_th_def bare_article_def no_entities_no_keywords
        calculate_overall_similarity_def)
  moreover have "similarity_score c2 = 0.5"
    using compare_articles_score(1) [OF c2] t
    by (simp add: article_the_en_def article_the_th_def bare_article_def no_entities_no_keywords
        calculate_overall_similarity_def)
  ultimately show ?thesis using c1 c2 by simp
qed

text \<open>With the tag \<open>mixed\<close> on the first article and a content that is not empty, the comparison raises.\<close>

lemma compare_mixed_raises:
  "compare_articles (bare_article\<lparr>content := str ''x'', language := str ''mixed''\<rparr>) bare_article
   = Inl (KeyError (str ''mixed''))"
  by (simp add: compare_articles_def analyze_sentiment_comparison_def analyze_sentiment_def
      positive_keywords_def bare_article_def Let_def str_def)

subsection \<open>Date resolution\<close>

lemma extract_loop_count_sum:
  "sum_list (map ev_article_count (extract_loop gs n)) = length (concat (map snd gs))"
  by (simp add: extract_loop_counts length_concat comp_def)

lemma extract_loop_ref_articles:
  assumes "e \<in> set (extract_loop gs n)" "ref \<in> set (ev_articles e)"
  shows "\<exists>x \<in> set (concat (map snd gs)). ref_title ref = title x \<and> ref_source ref = source x \<and> ref_url ref = url x"
  using assms
proof (induction gs n rule: extract_loop.induct)
  case (1 event_id)
  then show ?case by simp
next
  case (2 date_str articles gs event_id)
  show ?case
  proof (cases "e = make_event event_id date_str articles")
    case True
    with "2.prems"(2) obtain i x where "(i, x) \<in> set (enumerate 0 articles)" "ref = make_article_ref (i, x)"
      by (auto simp: make_event_def Let_def)
    then have "x \<in> set articles" "ref_title ref = title x \<and> ref_source ref = source x \<and> ref_url ref = url x"
      by (auto simp: make_article_ref_def in_set_enumerate_eq)
    then show ?thesis by auto
  next
    case False
    with "2.prems" "2.IH" show ?thesis by auto
  qed
qed

lemma stamp_fields: "title (stamp a) = title a" "source (stamp a) = source a" "url (stamp a) = url a"
  by (simp_all add: stamp_def split: option.splits)

lemma timeline_groups:
  assumes "snd (generate_timeline as) = Inr r"
  shows "\<exists>gs. events r = extract_loop gs 1 \<and> mset (concat (map snd gs)) = mset (dated_of as)"
proof -
  from generate_timeline_events(2) [OF assms] obtain gs where
    gs: "group_articles_by_date (sort_key timeline_key (dated_of as)) = Inr gs"
        "events r = extract_timeline_events gs" by blast
  from group_loop_members [of "sort_key timeline_key (dated_of as)" "[]" gs] gs(1)
  have "mset (concat (map snd gs)) = mset (dated_of as)"
    by (simp add: group_articles_by_date_def)
  with gs(2) show ?thesis by (auto simp: extract_timeline_events_def)
qed

lemma compare_ignores_dates:
  "compare_articles (a\<lparr>published_date := p, content_dates := cd, scraped_at := s\<rparr>) b = compare_articles a b"
  "compare_articles b (a\<lparr>published_date := p, content_dates := cd, scraped_at := s\<rparr>) = compare_articles b a"
  by (simp_all add: compare_articles_def Let_def split: sum.splits)

text \<open>
  Claim C5. The timeline generator takes as the date of an article its published date, else
  the first date found in its content, else the time of its scrape. The events of a
  timeline cover exactly the articles that have such a date: their article counts add up to
  the number of dated articles, and every article reference of an event stems from a dated
  article. The comparison of two articles reads none of the three date keys, so an article
  without them compares as it would with them.
\<close>

theorem date_resolution:
  "(published_date a = Some d \<longrightarrow> article_date a = Some d)
   \<and> (published_date a = None \<and> content_dates a = c # cs \<longrightarrow> article_date a = Some (parsed_date c))
   \<and> (published_date a = None \<and> content_dates a = [] \<longrightarrow> article_date a = scraped_at a)
   \<and> (snd (generate_timeline as) = Inr r \<longrightarrow>
        sum_list (map ev_article_count (events r)) = length (filter (\<lambda>x. article_date x \<noteq> None) as)
        \<and> (\<forall>e \<in> set (events r). \<forall>ref \<in> set (ev_articles e).
              \<exists>x \<in> set as. article_date x \<noteq> None
                 \<and> ref_title ref = title x \<and> ref_source ref = source x \<and> ref_url ref = url x))
   \<and> compare_articles (a\<lparr>published_date := None, content_dates := [], scraped_at := None\<rparr>) b
        = compare_articles a b
   \<and> compare_articles b (a\<lparr>published_date := None, content_dates := [], scraped_at := None\<rparr>)
        = compare_articles b a"
proof -
  have priority: "(published_date a = Some d \<longrightarrow> article_date a = Some d)
   \<and> (published_date a = None \<and> content_dates a = c # cs \<longrightarrow> article_date a = Some (parsed_date c))
   \<and> (published_date a = None \<and> content_dates a = [] \<longrightarrow> article_date a = scraped_at a)"
    by (simp add: article_date_def)
  have excluded: "sum_list (map ev_article_count (events r)) = length (filter (\<lambda>x. article_date x \<noteq> None) as)
        \<and> (\<forall>e \<in> set (events r). \<forall>ref \<in> set (ev_articles e).
              \<exists>x \<in> set as. article_date x \<noteq> None
                 \<and> ref_title ref = title x \<and> ref_source ref = source x \<and> ref_url ref = url x)"
    if r: "snd (generate_timeline as) = Inr r"
  proof -
    from timeline_groups [OF r] obtain gs where
      gs: "events r = extract_loop gs 1" "mset (concat (map snd gs)) = mset (dated_of as)" by blast
    have "length (concat (map snd gs)) = length (dated_of as)"
      using gs(2) by (metis size_mset)
    then have count: "sum_list (map ev_article_count (events r)) = length (filter (\<lambda>x. article_date x \<noteq> None) as)"
      by (simp add: gs(1) extract_loop_count_sum dated_of_def)
    have refs: "\<exists>x \<in> set as. article_date x \<noteq> None
                 \<and> ref_title ref = title x \<and> ref_source ref = source x \<and> ref_url ref = url x"
      if "e \<in> set (events r)" "ref \<in> set (ev_articles e)" for e ref
    proof -
      from extract_loop_ref_articles [of e gs 1 ref] that gs(1) obtain x where
        x: "x \<in> set (concat (map snd gs))"
           "ref_title ref = title x \<and> ref_source ref = source x \<and> ref_url ref = url x" by auto
      from x(1) gs(2) have "x \<in> set (dated_of as)" by (metis set_mset_mset)
      then obtain x0 where "x0 \<in> set as" "article_date x0 \<noteq> None" "x = stamp x0"
        by (auto simp: dated_of_def)
      with x(2) show ?thesis by (auto simp: stamp_fields)
    qed
    from count refs show ?thesis by blast
  qed
  from priority excluded show ?thesis by (simp only: compare_ignores_dates) blast
qed


theorem date_resolution_witness:
  "article_date article_day2 = Some (at_time 2024 1 2 7 0 None)
   \<and> article_date article_content_dated = Some (at_time 2024 1 15 0 0 None)
   \<and> article_date article_scraped = Some (at_time 2024 1 3 8 0 None)
   \<and> article_date bare_article = None
   \<and> (\<exists>r. snd (generate_timeline [bare_article, article_day2]) = Inr r
          \<and> sum_list (map ev_article_count (events r)) = 1)
   \<and> compare_articles (article_day2\<lparr>published_date := None, content_dates := [], scraped_at := None\<rparr>)
         bare_article = compare_articles article_day2 bare_article"
proof -
  have p: "published_date article_day2 = Some (at_time 2024 1 2 7 0 None)"
    by (simp add: article_day2_def)
  have c: "published_date article_content_dated = None
           \<and> content_dates article_content_dated =
               \<lparr>date_string = str ''15/01/2024'', parsed_date = at_time 2024 1 15 0 0 None, position = 4\<rparr> # []"
    by (simp add: article_content_dated_def bare_article_def)
  have s: "published_date article_scraped = None \<and> content_dates article_scraped = []"
      "scraped_at article_scraped = Some (at_time 2024 1 3 8 0 None)"
    by (simp_all add: article_scraped_def bare_article_def)
  have b: "published_date bare_article = None \<and> content_dates bare_article = []"
      "scraped_at bare_article = None"
    by (simp_all add: bare_article_def)
  have d2: "article_date article_day2 = Some (at_time 2024 1 2 7 0 None)"
    using date_resolution [of article_day2 "at_time 2024 1 2 7 0 None"] p by blast
  have dc: "article_date article_content_dated = Some (at_time 2024 1 15 0 0 None)"
    using date_resolution [of article_content_dated _
        "\<lparr>date_string = str ''15/01/2024'', parsed_date = at_time 2024 1 15 0 0 None, position = 4\<rparr>" "[]"] c
    by simp
  have ds: "article_date article_scraped = Some (at_time 2024 1 3 8 0 None)"
    using date_resolution [of article_scraped] s by simp
  have db: "article_date bare_article = None"
    using date_resolution [of bare_article] b by simp
  have "\<forall>d \<in> set (resolved_dates [bare_article, article_day2]). utcoffset d = None"
    by (simp add: resolved_dates_def d2 db at_time_def)
  from timeline_events_sorted_naive [OF this] obtain r where
    r: "snd (generate_timeline [bare_article, article_day2]) = Inr r" by blast
  have "sum_list (map ev_article_count (events r)) = 1"
    using date_resolution [of _ _ _ _ "[bare_article, article_day2]" r] r d2 db by simp
  with r have t: "\<exists>r. snd (generate_timeline [bare_article, article_day2]) = Inr r
          \<and> sum_list (map ev_article_count (events r)) = 1" by blast
  have "compare_articles (article_day2\<lparr>published_date := None, content_dates := [], scraped_at := None\<rparr>)
         bare_article = compare_articles article_day2 bare_article"
    using date_resolution [of article_day2 _ _ _ _ _ bare_article] by blast
  with d2 dc ds db t show ?thesis by blast
qed

end
